theory Spec2Isabelle
  imports Main "HOL-Library.Sublist" "HOL-Library.Multiset" "HOL-Library.Word"
begin

section \<open>Strings\<close>

text \<open>
  A Go string is a sequence of bytes; it is modelled as \<open>string\<close> (a list of 8-bit
  characters).  The functions of Go's \<open>strings\<close> package that the parser calls are
  written out below with their documented behaviour.  Every separator and every
  character that the parser looks for is ASCII, so working on bytes instead of
  UTF-8 runes makes no difference for them.
\<close>

text \<open>\<open>strings.ContainsAny(s, chars)\<close>: some character of \<open>chars\<close> occurs in \<open>s\<close>.\<close>

definition ContainsAny :: "string \<Rightarrow> string \<Rightarrow> bool" where
  "ContainsAny s chars = list_ex (\<lambda>c. c \<in> set chars) s"

text \<open>\<open>strings.HasPrefix\<close> and \<open>strings.HasSuffix\<close>.\<close>

fun HasPrefix :: "string \<Rightarrow> string \<Rightarrow> bool" where
  "HasPrefix s [] = True"
| "HasPrefix [] (p # ps) = False"
| "HasPrefix (c # cs) (p # ps) = (c = p \<and> HasPrefix cs ps)"

definition HasSuffix :: "string \<Rightarrow> string \<Rightarrow> bool" where
  "HasSuffix s suf = HasPrefix (rev s) (rev suf)"

text \<open>\<open>strings.Contains(s, substr)\<close>: \<open>substr\<close> occurs in \<open>s\<close> as a contiguous block.\<close>

fun Contains :: "string \<Rightarrow> string \<Rightarrow> bool" where
  "Contains [] sub = (sub = [])"
| "Contains (c # cs) sub = (HasPrefix (c # cs) sub \<or> Contains cs sub)"

text \<open>
  \<open>strings.Split(s, sep)\<close> for a non-empty separator: the pieces of \<open>s\<close> between
  the non-overlapping occurrences of \<open>sep\<close>, found from the left.  The result is
  never empty; a string without the separator is returned as its only piece.
  (Both calls of the parser pass a non-empty separator; with an empty one the
  model returns the whole string as one piece, which Go does not.)
\<close>

fun splitFrom :: "string \<Rightarrow> string \<Rightarrow> string \<Rightarrow> string list" where
  "splitFrom sep cur [] = [cur]"
| "splitFrom sep cur (c # cs) =
     (if sep \<noteq> [] \<and> HasPrefix (c # cs) sep
      then cur # splitFrom sep [] (drop (length sep - 1) cs)
      else splitFrom sep (cur @ [c]) cs)"

definition Split :: "string \<Rightarrow> string \<Rightarrow> string list" where
  "Split s sep = splitFrom sep [] s"

text \<open>
  \<open>strings.Replace(s, old, new, -1)\<close> for a non-empty \<open>old\<close>: every
  non-overlapping occurrence of \<open>old\<close>, found from the left, is replaced; the
  replacement text is not scanned again.
\<close>

fun Replace :: "string \<Rightarrow> string \<Rightarrow> string \<Rightarrow> string" where
  "Replace [] old new = []"
| "Replace (c # cs) old new =
     (if old \<noteq> [] \<and> HasPrefix (c # cs) old
      then new @ Replace (drop (length old - 1) cs) old new
      else c # Replace cs old new)"

text \<open>
  \<open>strings.TrimSpace\<close> removes the leading and the trailing white space, as
  \<open>unicode.IsSpace\<close> defines it: tab, line feed, vertical tab, form feed,
  carriage return, space, U+0085, U+00A0, U+1680, U+2000 to U+200A, U+2028,
  U+2029, U+202F, U+205F and U+3000.  \<open>spaceRunes\<close> lists their UTF-8
  encodings.  Go decodes one rune at a time from the front and then from the
  back; a byte sequence that is not valid UTF-8 decodes to the replacement
  character, which is no white space, and stops the trimming.  Each encoding
  starts with a byte that is no continuation byte, so a white space rune stands
  at the front (at the back) exactly when its encoding is a prefix (a suffix) of
  the text.
\<close>

definition spaceRunes :: "string list" where
  "spaceRunes =
     [[CHR 0x09], [CHR 0x0A], [CHR 0x0B], [CHR 0x0C], [CHR 0x0D], [CHR 0x20],
      [CHR 0xC2, CHR 0x85], [CHR 0xC2, CHR 0xA0],
      [CHR 0xE1, CHR 0x9A, CHR 0x80],
      [CHR 0xE2, CHR 0x80, CHR 0x80], [CHR 0xE2, CHR 0x80, CHR 0x81],
      [CHR 0xE2, CHR 0x80, CHR 0x82], [CHR 0xE2, CHR 0x80, CHR 0x83],
      [CHR 0xE2, CHR 0x80, CHR 0x84], [CHR 0xE2, CHR 0x80, CHR 0x85],
      [CHR 0xE2, CHR 0x80, CHR 0x86], [CHR 0xE2, CHR 0x80, CHR 0x87],
      [CHR 0xE2, CHR 0x80, CHR 0x88], [CHR 0xE2, CHR 0x80, CHR 0x89],
      [CHR 0xE2, CHR 0x80, CHR 0x8A],
      [CHR 0xE2, CHR 0x80, CHR 0xA8], [CHR 0xE2, CHR 0x80, CHR 0xA9],
      [CHR 0xE2, CHR 0x80, CHR 0xAF],
      [CHR 0xE2, CHR 0x81, CHR 0x9F],
      [CHR 0xE3, CHR 0x80, CHR 0x80]]"

text \<open>\<open>trimRunes rs s\<close> removes from the front of \<open>s\<close> every leading rune of \<open>rs\<close>.\<close>

fun trimRunes :: "string list \<Rightarrow> string \<Rightarrow> string" where
  "trimRunes rs [] = []"
| "trimRunes rs (c # cs) =
     (case find (\<lambda>r. r \<noteq> [] \<and> HasPrefix (c # cs) r) rs of
        None \<Rightarrow> c # cs
      | Some r \<Rightarrow> trimRunes rs (drop (length r - 1) cs))"

definition TrimSpace :: "string \<Rightarrow> string" where
  "TrimSpace s = rev (trimRunes (map rev spaceRunes) (rev (trimRunes spaceRunes s)))"

text \<open>
  \<open>filepath.Separator\<close> and \<open>filepath.Base\<close> on a Unix system: trailing
  separators are dropped, then the last path element is returned; the empty path
  gives \<open>"."\<close> and a path of separators only gives \<open>"/"\<close>.
\<close>

definition Separator :: char where
  "Separator = CHR ''/''"

definition Base :: "string \<Rightarrow> string" where
  "Base path =
     (if path = [] then ''.''
      else let p = rev (dropWhile (\<lambda>c. c = Separator) (rev path));
               b = rev (takeWhile (\<lambda>c. c \<noteq> Separator) (rev p))
           in if b = [] then [Separator] else b)"

section \<open>The argument validator (core/parse.go)\<close>

text \<open>
  The parameter types of package \<open>opt\<close>, as \<open>parseArgumentByType\<close> dispatches on
  them.  The enumeration is closed, so the final
  \<open>return nil, errors.New("Unhandled parseArgumentByType")\<close> of the source is not
  reachable and has no branch here.
\<close>

datatype ParamType =
    Unchecked | UncheckedOneOrMore
  | S3Obj | S3ObjOrDir | S3WildObj | S3Dir
  | FileObj | FileOrDir | Dir
  | Glob

text \<open>
  Every error the parser can return, one constructor per \<open>errors.New\<close> or
  \<open>fmt.Errorf\<close> of the source.  \<open>S3UrlError\<close> carries the message of the error
  that \<open>url.ParseS3Url\<close> returned, \<open>BadPattern\<close> is the error of
  \<open>filepath.Match\<close>, and \<open>IndexOutOfRange\<close> is the run-time panic of indexing
  an empty token (\<open>parts[k][0]\<close>).
\<close>

datatype error =
    S3UrlError string
  | S3KeyHasWildcards          \<comment> \<open>"S3 key cannot contain wildcards"\<close>
  | S3KeyNeedsWildcards        \<comment> \<open>"S3 key should contain wildcards"\<close>
  | S3KeyEmpty                 \<comment> \<open>"S3 key should not be empty"\<close>
  | S3KeyEndsWithSlash         \<comment> \<open>"S3 key should not end with /"\<close>
  | S3DirNeedsSlash            \<comment> \<open>"S3 dir should end with /"\<close>
  | FileResemblesS3            \<comment> \<open>"File param resembles s3 object"\<close>
  | HasGlobCharacters          \<comment> \<open>"Param should not contain glob characters"\<close>
  | FileEndsWithSlash          \<comment> \<open>"File param should not end with /"\<close>
  | FileIsDirectory            \<comment> \<open>"File param should not be a directory"\<close>
  | CouldNotStat               \<comment> \<open>"Could not stat"\<close>
  | DirIsFile                  \<comment> \<open>"Dir param can not be file"\<close>
  | NotAGlob                   \<comment> \<open>"Param does not look like a glob"\<close>
  | BadPattern
  | NestedCommands             \<comment> \<open>"Nested commands are not supported"\<close>
  | InvalidParametersWith string error  \<comment> \<open>"Invalid parameters to "%s": %s"\<close>
  | InvalidParameters string   \<comment> \<open>"Invalid parameters to "%s""\<close>
  | UnknownCommand string      \<comment> \<open>"Unknown command "%s""\<close>
  | IndexOutOfRange

record S3Url =
  Bucket :: string
  Key :: string

record JobArgument =
  arg :: string
  s3 :: "S3Url option"

text \<open>What \<open>os.Stat\<close> can answer for a path.\<close>

datatype StatResult =
    IsDirectory        \<comment> \<open>no error, \<open>st.IsDir()\<close> is true\<close>
  | IsNotDirectory     \<comment> \<open>no error, \<open>st.IsDir()\<close> is false\<close>
  | NotExist           \<comment> \<open>an error for which \<open>os.IsNotExist\<close> is true\<close>
  | StatFailed         \<comment> \<open>any other error\<close>

text \<open>
  The parser's surroundings.  Package \<open>url\<close> (\<open>ParseS3Url\<close>, \<open>Format\<close>,
  \<open>HasWild\<close>), package \<open>opt\<close> (\<open>GetAcceptedOpts\<close>, \<open>GetParam\<close>) and the command
  table \<open>commands\<close> belong to the repository but are not among its source files
  here; the file system (\<open>os.Stat\<close>) and the syntax check of
  \<open>filepath.Match(s, "")\<close> belong to the run-time system.  All of them are
  parameters of the model, collected in one record, so that every theorem below
  holds whatever they are.
\<close>

record ('op, 'o) commandMap =
  keyword :: string
  operation :: 'op
  params :: "ParamType list"
  opts :: "'o list"

record ('op, 'o) env =
  ParseS3Url :: "string \<Rightarrow> string + S3Url"
  Format :: "S3Url \<Rightarrow> string"
  HasWild :: "string \<Rightarrow> bool"
  Stat :: "string \<Rightarrow> StatResult"
  MatchFails :: "string \<Rightarrow> bool"
  commands :: "('op, 'o) commandMap list"
  GetAcceptedOpts :: "'op \<Rightarrow> 'o list"
  GetParam :: "'o \<Rightarrow> string"

text \<open>
  The constant \<open>GlobCharacters\<close> ("valid glob characters for local files") and the
  function \<open>hasGlob\<close>, which tests for a different set of characters.
\<close>

definition GlobCharacters :: string where
  "GlobCharacters = ''?*[''"

definition hasGlob :: "string \<Rightarrow> bool" where
  "hasGlob s = ContainsAny s ''*[]?''"

text \<open>
  \<open>parseArgumentByType\<close>, one definition per \<open>case\<close> of its \<open>switch\<close>.  Each returns
  the list of paths it passed to \<open>os.Stat\<close>, in order, together with the error or
  the validated argument.  \<open>fnBase\<close> is the borrowed base name computed at the top
  of the function; \<open>filepath.Base\<close> never returns the empty string, so it is
  non-empty exactly when it was computed.
\<close>

definition fnBaseOf :: "ParamType \<Rightarrow> JobArgument option \<Rightarrow> string" where
  "fnBaseOf t fnObj =
     (case fnObj of
        Some f \<Rightarrow> if t = S3ObjOrDir \<or> t = FileOrDir then Base (arg f) else []
      | None \<Rightarrow> [])"

definition parseS3Arg ::
  "('op, 'o) env \<Rightarrow> string \<Rightarrow> ParamType \<Rightarrow> string \<Rightarrow> error + JobArgument" where
  "parseS3Arg e s0 t fnBase =
     (case ParseS3Url e s0 of
        Inl msg \<Rightarrow> Inl (S3UrlError msg)
      | Inr uri \<Rightarrow>
          let s = ''s3://'' @ Format e uri;
              endsInSlash = HasSuffix (Key uri) ''/''
          in
          if (t = S3Obj \<or> t = S3ObjOrDir) \<and> HasWild e (Key uri) then Inl S3KeyHasWildcards
          else if t = S3WildObj \<and> \<not> HasWild e (Key uri) then Inl S3KeyNeedsWildcards
          else if t = S3WildObj \<and> Key uri = [] then Inl S3KeyEmpty
          else if endsInSlash \<and> t = S3Obj then Inl S3KeyEndsWithSlash
          else if \<not> endsInSlash \<and> t = S3Dir \<and> Key uri \<noteq> [] then Inl S3DirNeedsSlash
          else
            let (uri1, s1) =
                  (if t = S3ObjOrDir \<and> endsInSlash \<and> fnBase \<noteq> []
                   then (uri\<lparr>Key := Key uri @ fnBase\<rparr>, s @ fnBase)
                   else (uri, s));
                (uri2, s2) =
                  (if t = S3ObjOrDir \<and> Key uri1 = [] \<and> fnBase \<noteq> []
                   then (uri1\<lparr>Key := Key uri1 @ fnBase\<rparr>, s1 @ ''/'' @ fnBase)
                   else (uri1, s1))
            in Inr \<lparr>arg = s2, s3 = Some uri2\<rparr>)"

definition parseFileArg ::
  "('op, 'o) env \<Rightarrow> string \<Rightarrow> ParamType \<Rightarrow> string \<Rightarrow> string list \<times> (error + JobArgument)" where
  "parseFileArg e s0 t fnBase =
     (case ParseS3Url e s0 of
        Inr uri \<Rightarrow> ([], Inl FileResemblesS3)
      | Inl msg \<Rightarrow>
          let s = (if s0 = ''.'' then ''.'' @ [Separator] else s0);
              endsInSlash = (s \<noteq> [] \<and> last s = Separator)
          in
          if hasGlob s then ([], Inl HasGlobCharacters)
          else if t = FileObj \<and> endsInSlash then ([], Inl FileEndsWithSlash)
          else if t = FileObj \<and> Stat e s = IsDirectory then ([s], Inl FileIsDirectory)
          else
            let log1 = (if t = FileObj then [s] else []);
                s1 = (if t = FileOrDir \<and> endsInSlash \<and> fnBase \<noteq> [] then s @ fnBase else s)
            in
            if t = FileOrDir \<and> \<not> endsInSlash \<and> Stat e s1 = StatFailed
            then (log1 @ [s1], Inl CouldNotStat)
            else
              let log2 = (if t = FileOrDir \<and> \<not> endsInSlash then log1 @ [s1] else log1);
                  s2 = (if t = FileOrDir \<and> \<not> endsInSlash \<and> Stat e s1 = IsDirectory
                        then s1 @ [Separator] else s1)
              in
              if t = Dir \<and> \<not> endsInSlash \<and> Stat e s2 = StatFailed
              then (log2 @ [s2], Inl CouldNotStat)
              else if t = Dir \<and> \<not> endsInSlash \<and> Stat e s2 = IsNotDirectory
              then (log2 @ [s2], Inl DirIsFile)
              else
                let log3 = (if t = Dir \<and> \<not> endsInSlash then log2 @ [s2] else log2);
                    s4 = (if t = Dir \<and> \<not> endsInSlash then s2 @ [Separator] else s2)
                in (log3, Inr \<lparr>arg = s4, s3 = None\<rparr>))"

definition parseGlobArg :: "('op, 'o) env \<Rightarrow> string \<Rightarrow> error + JobArgument" where
  "parseGlobArg e s =
     (if \<not> hasGlob s then Inl NotAGlob
      else if MatchFails e s then Inl BadPattern
      else Inr \<lparr>arg = s, s3 = None\<rparr>)"

fun parseArgumentByTypeIO ::
  "('op, 'o) env \<Rightarrow> string \<Rightarrow> ParamType \<Rightarrow> JobArgument option
     \<Rightarrow> string list \<times> (error + JobArgument)" where
  "parseArgumentByTypeIO e s Unchecked fnObj = ([], Inr \<lparr>arg = s, s3 = None\<rparr>)"
| "parseArgumentByTypeIO e s UncheckedOneOrMore fnObj = ([], Inr \<lparr>arg = s, s3 = None\<rparr>)"
| "parseArgumentByTypeIO e s Glob fnObj = ([], parseGlobArg e s)"
| "parseArgumentByTypeIO e s FileObj fnObj = parseFileArg e s FileObj (fnBaseOf FileObj fnObj)"
| "parseArgumentByTypeIO e s FileOrDir fnObj = parseFileArg e s FileOrDir (fnBaseOf FileOrDir fnObj)"
| "parseArgumentByTypeIO e s Dir fnObj = parseFileArg e s Dir (fnBaseOf Dir fnObj)"
| "parseArgumentByTypeIO e s t fnObj = ([], parseS3Arg e s t (fnBaseOf t fnObj))"

text \<open>The value \<open>parseArgumentByType\<close> returns, without the record of its stat calls.\<close>

definition parseArgumentByType ::
  "('op, 'o) env \<Rightarrow> string \<Rightarrow> ParamType \<Rightarrow> JobArgument option \<Rightarrow> error + JobArgument" where
  "parseArgumentByType e s t fnObj = snd (parseArgumentByTypeIO e s t fnObj)"

section \<open>Matching one command (core/parse.go, parseSingleJob)\<close>

text \<open>
  A \<open>Job\<close> as the parser builds it.  The two counters are fresh 32-bit cells
  holding zero; the two continuations are owned links to other jobs.
\<close>

datatype ('op, 'o) Job =
  Job (sourceDesc: string) (command: string) (jobOperation: 'op)
      (args: "JobArgument list") (jobOpts: "'o list")
      (numSuccess: "32 word") (numFails: "32 word")
      (successCommand: "('op, 'o) Job option") (failCommand: "('op, 'o) Job option")

text \<open>
  The option loop \<open>for k := 1; k < len(parts); k++\<close>.  The list argument holds
  \<open>parts[k:]\<close>.  The result is \<open>fileArgsStartPosition\<close> and the job's options.
  The variable is initialised to 1 and assigned only where the loop leaves through
  \<open>goto endOptParse\<close>; when the loop runs to its end the initial 1 stands.
  Indexing the first byte of an empty token panics.
\<close>

definition acceptedMatches :: "('op, 'o) env \<Rightarrow> ('op, 'o) commandMap \<Rightarrow> string \<Rightarrow> 'o list" where
  "acceptedMatches e c p = filter (\<lambda>x. p = GetParam e x) (GetAcceptedOpts e (operation c))"

fun optParse ::
  "('op, 'o) env \<Rightarrow> ('op, 'o) commandMap \<Rightarrow> nat \<Rightarrow> string list \<Rightarrow> 'o list
     \<Rightarrow> error + (nat \<times> 'o list)" where
  "optParse e c k [] os = Inr (1, os)"
| "optParse e c k (p # ps) os =
     (if p = [] then Inl IndexOutOfRange
      else if hd p \<noteq> CHR ''-'' then Inr (k, os)
      else if acceptedMatches e c p = [] then Inr (k, os)
      else optParse e c (Suc k) ps (os @ acceptedMatches e c p))"

text \<open>
  The loop \<open>for i, t := range c.params\<close>.  Its state is the argument list, the
  first validated \<open>S3Obj\<close>/\<open>FileObj\<close> argument \<open>fnObj\<close>, \<open>maxI\<close> and \<open>lastType\<close>.
  Note that \<open>maxI\<close> is assigned the index \<open>i\<close> into \<open>c.params\<close>.
\<close>

type_synonym paramState = "JobArgument list \<times> JobArgument option \<times> nat \<times> ParamType"

fun checkParams ::
  "('op, 'o) env \<Rightarrow> string list \<Rightarrow> nat \<Rightarrow> nat \<Rightarrow> ParamType list \<Rightarrow> paramState
     \<Rightarrow> error + paramState" where
  "checkParams e parts start i [] st = Inr st"
| "checkParams e parts start i (t # ts) (as, fnObj, maxI, lastType) =
     (if length parts \<le> start + i then Inl IndexOutOfRange
      else case parseArgumentByType e (parts ! (start + i)) t fnObj of
             Inl err \<Rightarrow> Inl err
           | Inr a \<Rightarrow>
               checkParams e parts start (Suc i) ts
                 (as @ [a],
                  if (t = S3Obj \<or> t = FileObj) \<and> fnObj = None then Some a else fnObj,
                  i, t))"

text \<open>
  The loop \<open>for i, p := range parts\<close> that validates the remaining tokens; the list
  argument holds the tokens that pass its test \<open>i > maxI+1\<close>.
\<close>

fun checkRest ::
  "('op, 'o) env \<Rightarrow> ParamType \<Rightarrow> JobArgument option \<Rightarrow> string list \<Rightarrow> JobArgument list
     \<Rightarrow> error + JobArgument list" where
  "checkRest e lastType fnObj [] as = Inr as"
| "checkRest e lastType fnObj (p # ps) as =
     (case parseArgumentByType e p lastType fnObj of
        Inl err \<Rightarrow> Inl err
      | Inr a \<Rightarrow> checkRest e lastType fnObj ps (as @ [a]))"

text \<open>\<open>suppliedParamCount\<close>, \<open>minCount\<close>, \<open>maxCount\<close> and the arity test, on Go's \<open>int\<close>.\<close>

definition suppliedParamCount :: "string list \<Rightarrow> nat \<Rightarrow> int" where
  "suppliedParamCount parts fileArgsStartPosition = int (length parts) - int fileArgsStartPosition"

definition minCount :: "('op, 'o) commandMap \<Rightarrow> int" where
  "minCount c = int (length (params c))"

definition maxCount :: "('op, 'o) commandMap \<Rightarrow> int" where
  "maxCount c =
     (if minCount c > 0 \<and> last (params c) = UncheckedOneOrMore then - 1 else minCount c)"

definition arityRejected :: "('op, 'o) commandMap \<Rightarrow> int \<Rightarrow> bool" where
  "arityRejected c supplied =
     (supplied < minCount c \<or> (maxCount c > - 1 \<and> supplied > maxCount c))"

text \<open>
  The body of the \<open>if parts[0] == c.keyword\<close> block for one table entry.  It ends
  in one of three ways: \<open>Matched\<close> is the job returned by \<open>return ourJob, nil\<close>;
  \<open>Continue\<close> carries the value of \<open>parseArgErr\<close> with which the loop goes on to
  the next entry (\<open>continue\<close>): unchanged when the arity test rejects the entry,
  the validator's error otherwise; \<open>Panicked\<close> is the run-time panic of indexing
  an empty token.  The index \<open>parts[fileArgsStartPosition+i]\<close> is in range after
  the arity test; the model guards it all the same.
\<close>

datatype ('op, 'o) attempt =
    Matched "('op, 'o) Job"
  | Continue "error option"
  | Panicked

definition tryCommand ::
  "('op, 'o) env \<Rightarrow> string \<Rightarrow> string list \<Rightarrow> ('op, 'o) commandMap \<Rightarrow> error option
     \<Rightarrow> ('op, 'o) attempt" where
  "tryCommand e jobdesc parts c parseArgErr =
     (case optParse e c 1 (tl parts) (opts c) of
        Inl err \<Rightarrow> Panicked
      | Inr (fileArgsStartPosition, os) \<Rightarrow>
          if arityRejected c (suppliedParamCount parts fileArgsStartPosition)
          then Continue parseArgErr
          else
            (case checkParams e parts fileArgsStartPosition 0 (params c)
                    ([], None, fileArgsStartPosition, UncheckedOneOrMore) of
               Inl err \<Rightarrow> if err = IndexOutOfRange then Panicked else Continue (Some err)
             | Inr (as, fnObj, maxI, lastType) \<Rightarrow>
                 if minCount c \<noteq> maxCount c
                 then (case checkRest e lastType fnObj (drop (maxI + 2) parts) as of
                         Inl err \<Rightarrow> Continue (Some err)
                       | Inr as' \<Rightarrow>
                           Matched (Job jobdesc (keyword c) (operation c) as' os 0 0 None None))
                 else Matched (Job jobdesc (keyword c) (operation c) as os 0 0 None None)))"

text \<open>
  The loop \<open>for i, c := range commands\<close> and the error reporting after it.
  \<open>found\<close> holds the keyword of \<open>commands[found]\<close> once an entry with the
  keyword has been seen.
\<close>

fun tryCommands ::
  "('op, 'o) env \<Rightarrow> string \<Rightarrow> string list \<Rightarrow> ('op, 'o) commandMap list \<Rightarrow> string option
     \<Rightarrow> error option \<Rightarrow> error + ('op, 'o) Job" where
  "tryCommands e jobdesc parts [] found parseArgErr =
     (case found of
        Some kw \<Rightarrow>
          (case parseArgErr of
             Some err \<Rightarrow> Inl (InvalidParametersWith kw err)
           | None \<Rightarrow> Inl (InvalidParameters (hd parts)))
      | None \<Rightarrow> Inl (UnknownCommand (hd parts)))"
| "tryCommands e jobdesc parts (c # cs) found parseArgErr =
     (if hd parts = keyword c
      then (case tryCommand e jobdesc parts c parseArgErr of
              Matched j \<Rightarrow> Inr j
            | Panicked \<Rightarrow> Inl IndexOutOfRange
            | Continue err \<Rightarrow> tryCommands e jobdesc parts cs (Some (keyword c)) err)
      else tryCommands e jobdesc parts cs found parseArgErr)"

text \<open>
  \<open>parseSingleJob\<close>: \<open>Inr None\<close> is the pair \<open>(nil, nil)\<close>.  \<open>strings.Split\<close> never
  returns an empty slice, so \<open>parts[0]\<close> exists.
\<close>

definition parseSingleJob :: "('op, 'o) env \<Rightarrow> string \<Rightarrow> error + ('op, 'o) Job option" where
  "parseSingleJob e jobdesc =
     (if jobdesc = [] \<or> hd jobdesc = CHR ''#'' then Inr None
      else if Contains jobdesc ''&&'' then Inl NestedCommands
      else if Contains jobdesc ''||'' then Inl NestedCommands
      else case tryCommands e jobdesc (Split jobdesc '' '') (commands e) None None of
             Inl err \<Rightarrow> Inl err
           | Inr j \<Rightarrow> Inr (Some j))"

section \<open>Chained jobs (core/parse.go, ParseJob)\<close>

text \<open>
  The first lines of \<open>ParseJob\<close>: the text before the first \<open>" #"\<close>, trimmed, with
  \<open>strings.Replace(jobdesc, "  ", " ", -1)\<close> applied three times.
\<close>

definition stripComment :: "string \<Rightarrow> string" where
  "stripComment jobdesc = (case Split jobdesc '' #'' of [] \<Rightarrow> [] | x # xs \<Rightarrow> x)"

definition squeeze :: "string \<Rightarrow> string" where
  "squeeze jobdesc = Replace jobdesc [CHR '' '', CHR '' ''] [CHR '' '']"

definition normalize :: "string \<Rightarrow> string" where
  "normalize jobdesc = squeeze (squeeze (squeeze (TrimSpace (stripComment jobdesc))))"

text \<open>
  The three regular expressions.  Go's \<open>regexp\<close> finds the match that a
  backtracking matcher finds first, so each expression is written as such a
  matcher in continuation-passing style: \<open>reSpaces\<close> is the greedy \<open>\s*\<close> (it
  tries the longest run first), \<open>reGroup\<close> is the lazy group \<open>(.+?)\<close> (it tries
  the shortest text first and never crosses a line feed), \<open>reLit\<close> a literal
  and \<open>reEnd\<close> the anchor \<open>$\<close>.  The anchor \<open>^\<close> makes every match start at the
  first byte.  The class \<open>\s\<close> is tab, line feed, form feed, carriage return and
  space.  The result is the list of groups, \<open>None\<close> where Go returns \<open>nil\<close>.
\<close>

definition reSpace :: "char \<Rightarrow> bool" where
  "reSpace c = (c = CHR 0x09 \<or> c = CHR 0x0A \<or> c = CHR 0x0C \<or> c = CHR 0x0D \<or> c = CHR '' '')"

fun reSpaces :: "(string \<Rightarrow> 'r option) \<Rightarrow> string \<Rightarrow> 'r option" where
  "reSpaces k [] = k []"
| "reSpaces k (c # cs) =
     (if reSpace c
      then (case reSpaces k cs of Some r \<Rightarrow> Some r | None \<Rightarrow> k (c # cs))
      else k (c # cs))"

fun reGroup :: "(string \<Rightarrow> string \<Rightarrow> 'r option) \<Rightarrow> string \<Rightarrow> string \<Rightarrow> 'r option" where
  "reGroup k g [] = None"
| "reGroup k g (c # cs) =
     (if c = CHR 0x0A then None
      else (case k (g @ [c]) cs of Some r \<Rightarrow> Some r | None \<Rightarrow> reGroup k (g @ [c]) cs))"

definition reLit :: "string \<Rightarrow> (string \<Rightarrow> 'r option) \<Rightarrow> string \<Rightarrow> 'r option" where
  "reLit p k s = (if HasPrefix s p then k (drop (length p) s) else None)"

definition reEnd :: "'r \<Rightarrow> string \<Rightarrow> 'r option" where
  "reEnd r s = (if s = [] then Some r else None)"

definition regexCmdAndOr :: "string \<Rightarrow> (string \<times> string \<times> string) option" where
  "regexCmdAndOr =
     reSpaces (reGroup (\<lambda>a. reSpaces (reLit ''&&'' (reSpaces (reGroup
       (\<lambda>b. reSpaces (reLit ''||'' (reSpaces (reGroup
         (\<lambda>c. reSpaces (reEnd (a, b, c))) [])))) [])))) [])"

definition regexCmdAnd :: "string \<Rightarrow> (string \<times> string) option" where
  "regexCmdAnd =
     reSpaces (reGroup (\<lambda>a. reSpaces (reLit ''&&'' (reSpaces (reGroup
       (\<lambda>b. reSpaces (reEnd (a, b))) [])))) [])"

definition regexCmdOr :: "string \<Rightarrow> (string \<times> string) option" where
  "regexCmdOr =
     reSpaces (reGroup (\<lambda>a. reSpaces (reLit ''||'' (reSpaces (reGroup
       (\<lambda>b. reSpaces (reEnd (a, b))) [])))) [])"

text \<open>
  The end of \<open>ParseJob\<close>: the continuations are stored in the first job when there
  is one; a \<open>nil\<close> first job is returned as it is.
\<close>

fun setCommands ::
  "('op, 'o) Job \<Rightarrow> ('op, 'o) Job option \<Rightarrow> ('op, 'o) Job option \<Rightarrow> ('op, 'o) Job" where
  "setCommands (Job sd cmd op as os ns nf sc fc) s f = Job sd cmd op as os ns nf s f"

definition link ::
  "('op, 'o) Job option \<Rightarrow> ('op, 'o) Job option \<Rightarrow> ('op, 'o) Job option
     \<Rightarrow> error + ('op, 'o) Job option" where
  "link j s f = Inr (map_option (\<lambda>x. setCommands x s f) j)"

definition ParseJob :: "('op, 'o) env \<Rightarrow> string \<Rightarrow> error + ('op, 'o) Job option" where
  "ParseJob e line =
     (let jobdesc = normalize line in
      case regexCmdAndOr jobdesc of
        Some (a, b, c) \<Rightarrow>
          (case parseSingleJob e a of
             Inl err \<Rightarrow> Inl err
           | Inr j \<Rightarrow>
               (case parseSingleJob e b of
                  Inl err \<Rightarrow> Inl err
                | Inr s \<Rightarrow>
                    (case parseSingleJob e c of
                       Inl err \<Rightarrow> Inl err
                     | Inr f \<Rightarrow> link j s f)))
      | None \<Rightarrow>
          (case regexCmdAnd jobdesc of
             Some (a, b) \<Rightarrow>
               (case parseSingleJob e a of
                  Inl err \<Rightarrow> Inl err
                | Inr j \<Rightarrow>
                    (case parseSingleJob e b of
                       Inl err \<Rightarrow> Inl err
                     | Inr s \<Rightarrow> link j s None))
           | None \<Rightarrow>
               (case regexCmdOr jobdesc of
                  Some (a, b) \<Rightarrow>
                    (case parseSingleJob e a of
                       Inl err \<Rightarrow> Inl err
                     | Inr j \<Rightarrow>
                         (case parseSingleJob e b of
                            Inl err \<Rightarrow> Inl err
                          | Inr f \<Rightarrow> link j None f))
                | None \<Rightarrow>
                    (case parseSingleJob e jobdesc of
                       Inl err \<Rightarrow> Inl err
                     | Inr j \<Rightarrow> link j None None))))"

text \<open>
  A segment of a chained line, as the grammar \<open>A && B || C\<close> means it: a
  non-empty text on one line that neither begins nor ends with a character of
  the class \<open>\s\<close> and contains no chaining operator.
\<close>

definition segment :: "string \<Rightarrow> bool" where
  "segment x \<longleftrightarrow>
     x \<noteq> [] \<and> \<not> reSpace (hd x) \<and> \<not> reSpace (last x) \<and> CHR 0x0A \<notin> set x
     \<and> \<not> Contains x ''&&'' \<and> \<not> Contains x ''||''"

section \<open>The select driver (Select.Run)\<close>

text \<open>
  A Go \<open>error\<close> value that is not nil: an error of one of the collaborators (of
  an arbitrary type \<open>'e\<close>), the error \<open>Run\<close> builds with \<open>fmt.Errorf\<close> for an
  object on Glacier storage (it carries the object's URL), or a
  \<open>*multierror.Error\<close> with its list of entries.
\<close>

datatype 'e goerror =
    Opaque 'e
  | OnGlacier string
  | Multierror "'e goerror list"

text \<open>
  An object descriptor as \<open>Run\<close> reads it: \<open>object.URL\<close>, \<open>object.Type.IsDir()\<close>,
  \<open>object.Err\<close> and \<open>object.StorageClass.IsGlacier()\<close>.
\<close>

record 'e Object =
  URL :: string
  IsDir :: bool
  Err :: "'e goerror option"
  IsGlacier :: bool

text \<open>
  The collaborators of \<open>Run\<close>, none of which is among the source files: the three
  set-up calls, the classification \<open>errorpkg.IsCancelation\<close> (applied to
  \<open>object.Err\<close>, which may be nil), the error a prepared task returns when it is
  run (\<open>runTask\<close>), and the waiter.  Tasks run concurrently on the waiter, and the
  goroutine of \<open>Run\<close> that ranges over \<open>waiter.Err()\<close> handles what arrives, in
  the order of arrival; \<open>Run\<close> reads \<open>merror\<close> only after \<open>waiter.Wait()\<close> and
  after that goroutine has closed \<open>errDoneCh\<close>.  \<open>waiterErr\<close> maps the results of
  the submitted tasks (in the order of submission) to the errors that arrive on
  the channel, none of which is nil; nothing else is assumed about it.
\<close>

record ('e, 'u, 'c) driver =
  NewURL :: "string \<Rightarrow> 'e goerror + 'u"
  NewRemoteClient :: "'u \<Rightarrow> 'e goerror + 'c"
  expandSource :: "'c \<Rightarrow> 'u \<Rightarrow> 'e goerror + 'e Object list"
  IsCancelation :: "'e goerror option \<Rightarrow> bool"
  runTask :: "'c \<Rightarrow> string \<Rightarrow> 'e goerror option"
  waiterErr :: "'e goerror option list \<Rightarrow> 'e goerror list"

text \<open>
  The state of \<open>Run\<close>: the errors passed to \<open>printError\<close> so far, and \<open>merror\<close>
  (\<open>None\<close> is nil, \<open>Some es\<close> a \<open>*multierror.Error\<close> with the entries \<open>es\<close>).
\<close>

record 'e runState =
  printed :: "'e goerror list"
  merror :: "'e goerror list option"

text \<open>
  \<open>multierror.Append(merror, err)\<close> for a non-nil \<open>err\<close>: the entries of an \<open>err\<close>
  that is itself a \<open>*multierror.Error\<close> are appended one by one (flattened one
  level), any other error is appended as one entry.
\<close>

definition multierrorAppend :: "'e goerror list option \<Rightarrow> 'e goerror \<Rightarrow> 'e goerror list option" where
  "multierrorAppend m err =
     (let old = (case m of None \<Rightarrow> [] | Some es \<Rightarrow> es)
      in case err of
           Multierror es' \<Rightarrow> Some (old @ es')
         | _ \<Rightarrow> Some (old @ [err]))"

text \<open>
  The body of the collecting goroutine, for one error that arrives from the
  waiter: \<open>printError\<close>, then \<open>merror = multierror.Append(merror, err)\<close>.
\<close>

definition collect :: "'e runState \<Rightarrow> 'e goerror \<Rightarrow> 'e runState" where
  "collect st err = \<lparr>printed = printed st @ [err], merror = multierrorAppend (merror st) err\<rparr>"

text \<open>
  The loop \<open>for object := range objch\<close>: the errors it passes to \<open>printError\<close>
  and the results of the tasks it hands to \<open>parallel.Run\<close>, both in the order
  of the objects.  No branch of the loop assigns \<open>merror\<close>.
\<close>

fun enumerate_objects ::
  "('e, 'u, 'c) driver \<Rightarrow> 'c \<Rightarrow> 'e Object list \<Rightarrow> 'e goerror list \<times> 'e goerror option list" where
  "enumerate_objects d client [] = ([], [])"
| "enumerate_objects d client (object # objch) =
     (let (prints, tasks) = enumerate_objects d client objch in
      if IsDir object \<or> IsCancelation d (Err object) then (prints, tasks)
      else (case Err object of
              Some err \<Rightarrow> (err # prints, tasks)
            | None \<Rightarrow>
                if IsGlacier object then (OnGlacier (URL object) # prints, tasks)
                else (prints, runTask d client (URL object) # tasks)))"

text \<open>
  \<open>Run\<close>: the errors passed to \<open>printError\<close> (those of the loop first, then
  those of the collecting goroutine; in the program the two interleave) and the
  returned \<open>error\<close>, \<open>None\<close> for nil.  An early return hands back the error
  of the set-up call; the final \<open>return merror\<close> hands back nil or the
  \<open>*multierror.Error\<close>.
\<close>

definition Run :: "('e, 'u, 'c) driver \<Rightarrow> string \<Rightarrow> 'e goerror list \<times> 'e goerror option" where
  "Run d src =
     (case NewURL d src of
        Inl err \<Rightarrow> ([err], Some err)
      | Inr srcurl \<Rightarrow>
          (case NewRemoteClient d srcurl of
             Inl err \<Rightarrow> ([err], Some err)
           | Inr client \<Rightarrow>
               (case expandSource d client srcurl of
                  Inl err \<Rightarrow> ([err], Some err)
                | Inr objch \<Rightarrow>
                    (let (prints, tasks) = enumerate_objects d client objch;
                         st = foldl collect \<lparr>printed = prints, merror = None\<rparr> (waiterErr d tasks)
                     in (printed st, map_option Multierror (merror st))))))"

text \<open>
  The descriptors for which the loop reaches \<open>parallel.Run\<close>, written as the
  specification words it: not a directory, no error of its own (cancellation or
  other), not on cold storage.
\<close>

definition submitted :: "('e, 'u, 'c) driver \<Rightarrow> 'e Object list \<Rightarrow> 'e Object list" where
  "submitted d objch =
     filter (\<lambda>object. \<not> IsDir object \<and> \<not> IsCancelation d (Err object)
                      \<and> Err object = None \<and> \<not> IsGlacier object) objch"

section \<open>Sample surroundings\<close>

text \<open>
  Modelled from the spec: \<open>url.ParseS3Url\<close>, \<open>Format\<close> and \<open>HasWild\<close> are not among
  the source files.  The specification describes a remote location as a token
  \<open>scheme://bucket/key\<close> whose wildcard flag is derived from the key and whose
  formatted string is rebuilt from bucket and key.  These sample functions are
  used only to run the parser on concrete lines; no general theorem depends on
  them.
\<close>

definition sampleParseS3Url :: "string \<Rightarrow> string + S3Url" where
  "sampleParseS3Url s =
     (if \<not> HasPrefix s ''s3://'' then Inl ''S3 url should start with s3://''
      else let rest = drop 5 s; b = takeWhile (\<lambda>c. c \<noteq> CHR ''/'') rest
           in if b = [] then Inl ''S3 url should have a bucket''
              else Inr \<lparr>Bucket = b, Key = drop (Suc (length b)) rest\<rparr>)"

definition sampleFormat :: "S3Url \<Rightarrow> string" where
  "sampleFormat u = (if Key u = [] then Bucket u else Bucket u @ ''/'' @ Key u)"

text \<open>
  Modelled from the spec: the command table and package \<open>opt\<close> are not among the
  source files, and the specification does not list the table; it describes an
  entry as a keyword, a signature of parameter types, a set of accepted option
  flags and an operation tag.  The sample table has one entry without
  parameters, one with two typed parameters and one whose signature ends in
  \<open>UncheckedOneOrMore\<close>; operations and options are named by strings, and an
  option's flag text is its name.  The sample file system is empty and the
  sample pattern check accepts every pattern.
\<close>

definition sampleCommands :: "(string, string) commandMap list" where
  "sampleCommands =
     [\<lparr>keyword = ''ls'', operation = ''list'', params = [], opts = []\<rparr>,
      \<lparr>keyword = ''cp'', operation = ''copy'', params = [FileObj, FileOrDir], opts = []\<rparr>,
      \<lparr>keyword = ''rm'', operation = ''remove'', params = [UncheckedOneOrMore], opts = []\<rparr>]"

definition sampleEnv :: "(string, string) env" where
  "sampleEnv =
     \<lparr>ParseS3Url = sampleParseS3Url,
      Format = sampleFormat,
      HasWild = (\<lambda>s. ContainsAny s ''?*''),
      Stat = (\<lambda>p. NotExist),
      MatchFails = (\<lambda>p. False),
      commands = sampleCommands,
      GetAcceptedOpts = (\<lambda>op. if op = ''list'' then [''-e''] else [''-f'']),
      GetParam = (\<lambda>x. x)\<rparr>"

text \<open>
  A sample driver: every set-up call succeeds, the source expands to the given
  objects, the error \<open>Opaque ''canceled''\<close> is the cancellation, a task fails
  with the error \<open>Opaque ''denied''\<close> exactly on the URL \<open>s3://b/locked\<close>, and
  the waiter delivers the errors of the failing tasks in the order of
  submission.
\<close>

definition sampleDriver :: "string Object list \<Rightarrow> (string, string, unit) driver" where
  "sampleDriver objch =
     \<lparr>NewURL = (\<lambda>src. Inr src),
      NewRemoteClient = (\<lambda>u. Inr ()),
      expandSource = (\<lambda>c u. Inr objch),
      IsCancelation = (\<lambda>err. err = Some (Opaque ''canceled'')),
      runTask = (\<lambda>c u. if u = ''s3://b/locked'' then Some (Opaque ''denied'') else None),
      waiterErr = (\<lambda>rs. List.map_filter (\<lambda>r. r) rs)\<rparr>"

text \<open>
  Six sample descriptors: a directory, one whose error is the cancellation, one
  on Glacier storage, one with an enumeration error, and two plain objects, the
  second of which is the one the sample task fails on.
\<close>

definition sampleObjects :: "string Object list" where
  "sampleObjects =
     [\<lparr>URL = ''s3://b/dir/'', IsDir = True, Err = None, IsGlacier = False\<rparr>,
      \<lparr>URL = ''s3://b/late'', IsDir = False, Err = Some (Opaque ''canceled''), IsGlacier = False\<rparr>,
      \<lparr>URL = ''s3://b/cold'', IsDir = False, Err = None, IsGlacier = True\<rparr>,
      \<lparr>URL = ''s3://b/gone'', IsDir = False, Err = Some (Opaque ''access denied''),
         IsGlacier = False\<rparr>,
      \<lparr>URL = ''s3://b/ok'', IsDir = False, Err = None, IsGlacier = False\<rparr>,
      \<lparr>URL = ''s3://b/locked'', IsDir = False, Err = None, IsGlacier = False\<rparr>]"

section \<open>Facts about the validator\<close>

lemma Base_not_empty: "Base p \<noteq> []"
  by (simp add: Base_def Let_def)

lemma HasSuffix_Nil: "\<not> HasSuffix [] ''/''"
  by (simp add: HasSuffix_def)

lemma hasGlob_iff:
  "hasGlob s \<longleftrightarrow> (\<exists>c \<in> set s. c = CHR ''*'' \<or> c = CHR ''['' \<or> c = CHR '']'' \<or> c = CHR ''?'')"
  by (auto simp add: hasGlob_def ContainsAny_def list_ex_iff)

lemma parseGlob_iff:
  "parseArgumentByType e s Glob fnObj = Inr a \<longleftrightarrow>
     hasGlob s \<and> \<not> MatchFails e s \<and> a = \<lparr>arg = s, s3 = None\<rparr>"
  by (auto simp add: parseArgumentByType_def parseGlobArg_def)

text \<open>The validator itself never panics.\<close>

lemma parseArgumentByType_no_panic: "parseArgumentByType e s t fnObj \<noteq> Inl IndexOutOfRange"
  by (cases t)
     (auto simp add: parseArgumentByType_def parseS3Arg_def parseFileArg_def parseGlobArg_def
        Let_def split: sum.splits if_splits prod.splits)

text \<open>
  C7.  For a remote token that parses with an empty key (and, as \<open>S3ObjOrDir\<close>
  demands, without wildcards), validation as \<open>S3ObjOrDir\<close> with a borrowed base
  name sets the key to the base name and returns the formatted location followed
  by \<open>/\<close> and the base name.  When the key ends in \<open>/\<close>, the base name is
  appended to the key and to the canonical string.  The base name is
  \<open>filepath.Base\<close> of the first file or object argument \<open>f\<close>.
\<close>

theorem S3ObjOrDir_borrows_basename:
  assumes "ParseS3Url e s = Inr uri" and "\<not> HasWild e (Key uri)"
  shows "(Key uri = [] \<longrightarrow>
            parseArgumentByType e s S3ObjOrDir (Some f)
              = Inr \<lparr>arg = ''s3://'' @ Format e uri @ ''/'' @ Base (arg f),
                     s3 = Some (uri\<lparr>Key := Base (arg f)\<rparr>)\<rparr>)
       \<and> (HasSuffix (Key uri) ''/'' \<longrightarrow>
            parseArgumentByType e s S3ObjOrDir (Some f)
              = Inr \<lparr>arg = ''s3://'' @ Format e uri @ Base (arg f),
                     s3 = Some (uri\<lparr>Key := Key uri @ Base (arg f)\<rparr>)\<rparr>)"
  using assms
  by (auto simp add: parseArgumentByType_def parseS3Arg_def fnBaseOf_def Base_not_empty
        HasSuffix_Nil Let_def)

theorem S3ObjOrDir_borrows_basename_witness:
  "parseArgumentByType sampleEnv ''s3://bucket'' S3ObjOrDir
       (Some \<lparr>arg = ''dir/file.txt'', s3 = None\<rparr>)
     = Inr \<lparr>arg = ''s3://bucket/file.txt'',
            s3 = Some \<lparr>Bucket = ''bucket'', Key = ''file.txt''\<rparr>\<rparr>
   \<and> parseArgumentByType sampleEnv ''s3://bucket/logs/'' S3ObjOrDir
       (Some \<lparr>arg = ''dir/file.txt'', s3 = None\<rparr>)
     = Inr \<lparr>arg = ''s3://bucket/logs/file.txt'',
            s3 = Some \<lparr>Bucket = ''bucket'', Key = ''logs/file.txt''\<rparr>\<rparr>"
proof -
  have p1: "ParseS3Url sampleEnv ''s3://bucket'' = Inr \<lparr>Bucket = ''bucket'', Key = []\<rparr>"
    by (simp add: sampleEnv_def sampleParseS3Url_def)
  have w1: "\<not> HasWild sampleEnv (Key \<lparr>Bucket = ''bucket'', Key = []\<rparr>)"
    by (simp add: sampleEnv_def ContainsAny_def)
  have p2: "ParseS3Url sampleEnv ''s3://bucket/logs/''
              = Inr \<lparr>Bucket = ''bucket'', Key = ''logs/''\<rparr>"
    by (simp add: sampleEnv_def sampleParseS3Url_def)
  have w2: "\<not> HasWild sampleEnv (Key \<lparr>Bucket = ''bucket'', Key = ''logs/''\<rparr>)"
    by (simp add: sampleEnv_def ContainsAny_def)
  have b: "Base ''dir/file.txt'' = ''file.txt''"
    by (simp add: Base_def Separator_def)
  have s: "HasSuffix ''logs/'' ''/''"
    by (simp add: HasSuffix_def)
  show ?thesis
    using S3ObjOrDir_borrows_basename [OF p1 w1, of "\<lparr>arg = ''dir/file.txt'', s3 = None\<rparr>"]
          S3ObjOrDir_borrows_basename [OF p2 w2, of "\<lparr>arg = ''dir/file.txt'', s3 = None\<rparr>"]
          b s
    by (simp add: sampleEnv_def sampleFormat_def)
qed

text \<open>
  C8 as stated fails for two kinds of local tokens that do not end in a
  separator.  The token \<open>"."\<close> is rewritten to \<open>"./"\<close> and accepted without any
  call of \<open>os.Stat\<close>, so a stat failure is no error for it.  A token with a glob
  character, such as \<open>*.log\<close>, is rejected with the glob-characters error before
  \<open>os.Stat\<close> is reached, also when the path does not exist.
\<close>

theorem Dir_without_stat_counterexample:
  "parseArgumentByTypeIO (sampleEnv\<lparr>Stat := (\<lambda>p. StatFailed)\<rparr>) ''.'' Dir None
     = ([], Inr \<lparr>arg = ''./'', s3 = None\<rparr>)
   \<and> parseArgumentByTypeIO sampleEnv ''*.log'' Dir None = ([], Inl HasGlobCharacters)"
  by (simp add: parseFileArg_def sampleEnv_def sampleParseS3Url_def Let_def Separator_def
        hasGlob_def ContainsAny_def)

text \<open>
  C8, amended.  Let a token not parse as a remote location, contain none of the
  glob characters \<open>?\<close>, \<open>*\<close>, \<open>[\<close>, and not end in a separator (tokens that
  contain \<open>]\<close> are left aside here).  Validated as \<open>Dir\<close>, the token \<open>"."\<close> is
  accepted as \<open>"./"\<close> without a call of \<open>os.Stat\<close>.  Every other such token is
  passed to \<open>os.Stat\<close> once: if the path exists and is not a directory the
  validation fails; if it does not exist (or is a directory) the validation
  succeeds and the canonical string is the token followed by the separator; any
  other stat failure is an error.
\<close>

theorem Dir_stat_rules:
  assumes "ParseS3Url e s = Inl msg" and "\<not> ContainsAny s GlobCharacters"
    and "CHR '']'' \<notin> set s" and "s = [] \<or> last s \<noteq> Separator"
  shows "(s = ''.'' \<longrightarrow>
            parseArgumentByTypeIO e s Dir fnObj = ([], Inr \<lparr>arg = ''./'', s3 = None\<rparr>))
       \<and> (s \<noteq> ''.'' \<longrightarrow>
            (Stat e s = IsNotDirectory \<longrightarrow>
               parseArgumentByTypeIO e s Dir fnObj = ([s], Inl DirIsFile))
          \<and> (Stat e s = NotExist \<longrightarrow>
               parseArgumentByTypeIO e s Dir fnObj
                 = ([s], Inr \<lparr>arg = s @ [Separator], s3 = None\<rparr>))
          \<and> (Stat e s = IsDirectory \<longrightarrow>
               parseArgumentByTypeIO e s Dir fnObj
                 = ([s], Inr \<lparr>arg = s @ [Separator], s3 = None\<rparr>))
          \<and> (Stat e s = StatFailed \<longrightarrow>
               parseArgumentByTypeIO e s Dir fnObj = ([s], Inl CouldNotStat)))"
proof -
  have g: "\<not> hasGlob s"
    using assms(2,3) by (auto simp add: hasGlob_iff ContainsAny_def GlobCharacters_def list_ex_iff)
  show ?thesis
    using assms(1,4) g
    by (auto simp add: parseFileArg_def Let_def Separator_def hasGlob_def ContainsAny_def)
qed

theorem Dir_stat_rules_witness:
  "parseArgumentByTypeIO sampleEnv ''out'' Dir None
     = ([''out''], Inr \<lparr>arg = ''out/'', s3 = None\<rparr>)
   \<and> parseArgumentByTypeIO (sampleEnv\<lparr>Stat := (\<lambda>p. IsNotDirectory)\<rparr>) ''out'' Dir None
     = ([''out''], Inl DirIsFile)
   \<and> parseArgumentByTypeIO (sampleEnv\<lparr>Stat := (\<lambda>p. StatFailed)\<rparr>) ''out'' Dir None
     = ([''out''], Inl CouldNotStat)
   \<and> parseArgumentByTypeIO (sampleEnv\<lparr>Stat := (\<lambda>p. StatFailed)\<rparr>) ''.'' Dir None
     = ([], Inr \<lparr>arg = ''./'', s3 = None\<rparr>)"
proof -
  have p: "ParseS3Url (sampleEnv\<lparr>Stat := f\<rparr>) t = Inl ''S3 url should start with s3://''"
    if "t = ''out'' \<or> t = ''.''" for f t
    using that by (auto simp add: sampleEnv_def sampleParseS3Url_def)
  have g: "\<not> ContainsAny ''out'' GlobCharacters" "\<not> ContainsAny ''.'' GlobCharacters"
    by (simp_all add: ContainsAny_def GlobCharacters_def)
  have b: "CHR '']'' \<notin> set ''out''" "CHR '']'' \<notin> set ''.''"
    by simp_all
  have l: "''out'' = [] \<or> last ''out'' \<noteq> Separator" "''.'' = [] \<or> last ''.'' \<noteq> Separator"
    by (simp_all add: Separator_def)
  show ?thesis
    using Dir_stat_rules [OF p g(1) b(1) l(1), of "\<lambda>p. NotExist" None]
          Dir_stat_rules [OF p g(1) b(1) l(1), of "\<lambda>p. IsNotDirectory" None]
          Dir_stat_rules [OF p g(1) b(1) l(1), of "\<lambda>p. StatFailed" None]
          Dir_stat_rules [OF p g(2) b(2) l(2), of "\<lambda>p. StatFailed" None]
    by (simp add: sampleEnv_def Separator_def)
qed

text \<open>
  C10 as stated fails: with a borrowed base name, validating \<open>"."\<close> as
  \<open>FileOrDir\<close> yields \<open>"./"\<close> followed by the base name, not \<open>"./"\<close>.
\<close>

theorem dot_FileOrDir_counterexample:
  "parseArgumentByType sampleEnv ''.'' FileOrDir (Some \<lparr>arg = ''dir/a.txt'', s3 = None\<rparr>)
     = Inr \<lparr>arg = ''./a.txt'', s3 = None\<rparr>
   \<and> parseArgumentByType sampleEnv ''.'' FileOrDir (Some \<lparr>arg = ''dir/a.txt'', s3 = None\<rparr>)
     \<noteq> Inr \<lparr>arg = ''./'', s3 = None\<rparr>"
  by (simp add: parseArgumentByType_def parseFileArg_def sampleEnv_def sampleParseS3Url_def
        Let_def Separator_def hasGlob_def ContainsAny_def fnBaseOf_def Base_def)

text \<open>
  C10, amended.  For the token \<open>"."\<close> (which does not parse as a remote
  location), every local validation first rewrites it to \<open>"./"\<close> and calls
  \<open>os.Stat\<close> for no path: as \<open>FileObj\<close> it fails with the ends-in-separator
  error; as \<open>Dir\<close> it succeeds with \<open>"./"\<close>; as \<open>FileOrDir\<close> it succeeds with
  \<open>"./"\<close> when no base name is borrowed and with \<open>"./"\<close> followed by the borrowed
  base name when one is.
\<close>

theorem dot_is_rewritten:
  assumes "ParseS3Url e ''.'' = Inl msg"
  shows "parseArgumentByTypeIO e ''.'' FileObj fnObj = ([], Inl FileEndsWithSlash)
       \<and> parseArgumentByTypeIO e ''.'' Dir fnObj = ([], Inr \<lparr>arg = ''./'', s3 = None\<rparr>)
       \<and> parseArgumentByTypeIO e ''.'' FileOrDir None = ([], Inr \<lparr>arg = ''./'', s3 = None\<rparr>)
       \<and> parseArgumentByTypeIO e ''.'' FileOrDir (Some f)
            = ([], Inr \<lparr>arg = ''./'' @ Base (arg f), s3 = None\<rparr>)"
  using assms
  by (simp add: parseFileArg_def Let_def Separator_def hasGlob_def ContainsAny_def
        fnBaseOf_def Base_not_empty)

theorem dot_is_rewritten_witness:
  "parseArgumentByTypeIO sampleEnv ''.'' FileObj None = ([], Inl FileEndsWithSlash)
   \<and> parseArgumentByTypeIO sampleEnv ''.'' Dir None = ([], Inr \<lparr>arg = ''./'', s3 = None\<rparr>)
   \<and> parseArgumentByTypeIO sampleEnv ''.'' FileOrDir None
       = ([], Inr \<lparr>arg = ''./'', s3 = None\<rparr>)
   \<and> parseArgumentByTypeIO sampleEnv ''.'' FileOrDir (Some \<lparr>arg = ''dir/a.txt'', s3 = None\<rparr>)
       = ([], Inr \<lparr>arg = ''./a.txt'', s3 = None\<rparr>)"
proof -
  have p: "ParseS3Url sampleEnv ''.'' = Inl ''S3 url should start with s3://''"
    by (simp add: sampleEnv_def sampleParseS3Url_def)
  have b: "Base ''dir/a.txt'' = ''a.txt''"
    by (simp add: Base_def Separator_def)
  show ?thesis
    using dot_is_rewritten [OF p, of None "\<lparr>arg = ''dir/a.txt'', s3 = None\<rparr>"] b
    by simp
qed

text \<open>
  C6 at its failing input.  The token \<open>a]\<close> contains none of the characters of
  \<open>GlobCharacters\<close> (\<open>?\<close>, \<open>*\<close>, \<open>[\<close>), yet \<open>hasGlob\<close> holds for it: validated
  as \<open>FileObj\<close> it is rejected with the glob-characters error, and validated as
  \<open>Glob\<close> it passes the test for a glob character.
\<close>

theorem hasGlob_closing_bracket:
  "\<not> ContainsAny ''a]'' GlobCharacters
   \<and> hasGlob ''a]''
   \<and> parseArgumentByType sampleEnv ''a]'' FileObj None = Inl HasGlobCharacters
   \<and> parseArgumentByType sampleEnv ''a]'' Glob None = Inr \<lparr>arg = ''a]'', s3 = None\<rparr>"
  by (simp add: parseArgumentByType_def parseFileArg_def parseGlobArg_def sampleEnv_def
        sampleParseS3Url_def Let_def hasGlob_def ContainsAny_def GlobCharacters_def)

section \<open>Facts about the parser\<close>

text \<open>
  \<open>strings.Split\<close> returns at least one piece, so \<open>parts[0]\<close> exists; and after
  the arity test every index \<open>parts[fileArgsStartPosition+i]\<close> of the loop over
  the signature is in range.
\<close>

lemma Split_not_empty: "Split s sep \<noteq> []"
proof -
  have "splitFrom sep cur s \<noteq> []" for cur
    by (induction sep cur s rule: splitFrom.induct) auto
  then show ?thesis by (simp add: Split_def)
qed

lemma checkParams_in_range:
  "start + i + length ts \<le> length parts \<Longrightarrow> checkParams e parts start i ts st \<noteq> Inl IndexOutOfRange"
proof (induction ts arbitrary: i st)
  case Nil
  then show ?case by simp
next
  case (Cons t ts)
  obtain as0 fn0 m0 l0 where st: "st = (as0, fn0, m0, l0)"
    by (cases st) auto
  show ?case
    using Cons.prems Cons.IH [of "Suc i"] parseArgumentByType_no_panic [of e _ t fn0]
    by (auto simp add: st split: sum.splits)
qed

lemma checkParams_after_arity_test:
  assumes "\<not> arityRejected c (suppliedParamCount parts start)"
  shows "checkParams e parts start 0 (params c) st \<noteq> Inl IndexOutOfRange"
proof (rule checkParams_in_range)
  show "start + 0 + length (params c) \<le> length parts"
    using assms by (simp add: arityRejected_def suppliedParamCount_def minCount_def)
qed

text \<open>
  One pass of \<open>strings.Replace(jobdesc, "  ", " ", -1)\<close> halves a run of spaces,
  rounding up; three passes leave a single space only for runs of at most eight.
\<close>

lemma squeeze_spaces:
  "squeeze (replicate n (CHR '' '')) = replicate ((n + 1) div 2) (CHR '' '')"
proof (induction n rule: less_induct)
  case (less n)
  show ?case
  proof (cases n)
    case 0
    then show ?thesis by (simp add: squeeze_def)
  next
    case (Suc m)
    show ?thesis
    proof (cases m)
      case 0
      with Suc show ?thesis by (simp add: squeeze_def)
    next
      case (Suc k)
      have "squeeze (replicate k (CHR '' '')) = replicate ((k + 1) div 2) (CHR '' '')"
        using less.IH [of k] Suc \<open>n = Suc m\<close> by simp
      with Suc \<open>n = Suc m\<close> show ?thesis by (simp add: squeeze_def)
    qed
  qed
qed

text \<open>
  C3 at its failing input.  Three passes of \<open>strings.Replace\<close> turn a run of nine
  spaces into five, three and then two spaces: the normalized text of
  \<open>a\<close>, nine spaces, \<open>b\<close> still has two adjacent spaces, and \<open>strings.Split\<close>
  then yields an empty token.
\<close>

theorem normalize_nine_spaces:
  "normalize (''a'' @ replicate 9 (CHR '' '') @ ''b'') = ''a  b''
   \<and> Contains (normalize (''a'' @ replicate 9 (CHR '' '') @ ''b'')) ''  ''
   \<and> Split (normalize (''a'' @ replicate 9 (CHR '' '') @ ''b'')) '' '' = [''a'', [], ''b'']"
proof -
  have nine: "replicate 9 (CHR '' '') = ''         ''"
    by (simp add: numeral_eq_Suc)
  show ?thesis
    by (simp add: nine normalize_def stripComment_def Split_def TrimSpace_def spaceRunes_def
          squeeze_def)
qed

text \<open>
  The option loop stops at the first token that is not a recognized flag and
  reports its index; when every token is a recognized flag it reports 1.
\<close>

lemma optParse_stops:
  assumes "\<forall>p \<in> set fs. p \<noteq> [] \<and> hd p = CHR ''-'' \<and> acceptedMatches e c p \<noteq> []"
    and "q \<noteq> []" and "hd q \<noteq> CHR ''-'' \<or> acceptedMatches e c q = []"
  shows "optParse e c k (fs @ q # rest) os
           = Inr (k + length fs, os @ concat (map (acceptedMatches e c) fs))"
  using assms by (induction fs arbitrary: k os) auto

lemma optParse_runs_out:
  assumes "\<forall>p \<in> set fs. p \<noteq> [] \<and> hd p = CHR ''-'' \<and> acceptedMatches e c p \<noteq> []"
  shows "optParse e c k fs os = Inr (1, os @ concat (map (acceptedMatches e c) fs))"
  using assms by (induction fs arbitrary: k os) auto

text \<open>
  C4 at its failing input.  For the line \<open>ls -e\<close>, where \<open>-e\<close> is an accepted
  option of \<open>ls\<close> and \<open>ls\<close> takes no parameter, the option loop runs to its end,
  \<open>fileArgsStartPosition\<close> keeps its initial value 1, the supplied count is 1
  instead of 0, and the entry is rejected by the arity test.
\<close>

theorem optParse_all_flags:
  "optParse sampleEnv \<lparr>keyword = ''ls'', operation = ''list'', params = [], opts = []\<rparr> 1
       (tl [''ls'', ''-e'']) [] = Inr (1, [''-e''])
   \<and> suppliedParamCount [''ls'', ''-e''] 1 = 1
   \<and> parseSingleJob sampleEnv ''ls -e'' = Inl (InvalidParameters ''ls'')"
  by (simp add: parseSingleJob_def Split_def sampleEnv_def sampleCommands_def tryCommand_def
        acceptedMatches_def arityRejected_def suppliedParamCount_def minCount_def maxCount_def)

text \<open>
  After the loop over a non-empty signature, \<open>maxI\<close> is the index of the last
  declared type within the signature, whatever \<open>fileArgsStartPosition\<close> was.
\<close>

lemma checkParams_maxI:
  assumes "checkParams e parts start i ts st = Inr (as, fnObj, maxI, lastType)" and "ts \<noteq> []"
  shows "maxI = i + length ts - 1 \<and> lastType = last ts"
  using assms
proof (induction ts arbitrary: i st)
  case Nil
  then show ?case by simp
next
  case (Cons t ts)
  obtain as0 fn0 m0 l0 where st: "st = (as0, fn0, m0, l0)"
    by (cases st) auto
  show ?case
  proof (cases "ts = []")
    case True
    with Cons.prems st show ?thesis
      by (auto split: if_splits sum.splits)
  next
    case False
    with Cons.prems st show ?thesis
      by (auto split: if_splits sum.splits dest!: Cons.IH [OF _ False])
  qed
qed

text \<open>
  C5 at its failing input.  For the line \<open>rm -f a b\<close>, where \<open>-f\<close> is an
  accepted option and the signature of \<open>rm\<close> is \<open>UncheckedOneOrMore\<close>, the token
  \<open>a\<close> is validated and appended twice: the job's arguments are \<open>a\<close>, \<open>a\<close>,
  \<open>b\<close>.
\<close>

theorem remaining_tokens_after_option:
  "parseSingleJob sampleEnv ''rm -f a b''
     = Inr (Some (Job ''rm -f a b'' ''rm'' ''remove''
         [\<lparr>arg = ''a'', s3 = None\<rparr>, \<lparr>arg = ''a'', s3 = None\<rparr>, \<lparr>arg = ''b'', s3 = None\<rparr>]
         [''-f''] 0 0 None None))"
  by (simp add: parseSingleJob_def Split_def sampleEnv_def sampleCommands_def tryCommand_def
        acceptedMatches_def arityRejected_def suppliedParamCount_def minCount_def maxCount_def
        parseArgumentByType_def)

subsection \<open>The three regular expressions on chained lines\<close>

lemma HasPrefix_single: "HasPrefix v [b] \<longleftrightarrow> v \<noteq> [] \<and> hd v = b"
  by (cases v) auto

lemma HasPrefix_append_same: "HasPrefix (p @ s) p"
  by (induction p) auto

lemma Contains_Nil_pattern: "Contains s []"
  by (cases s) auto

lemma Contains_append_right: "Contains v p \<Longrightarrow> Contains (u @ v) p"
  by (induction u) auto

lemma Contains_append2:
  "Contains (u @ v) [a, b] \<longleftrightarrow>
     Contains u [a, b] \<or> Contains v [a, b] \<or> (u \<noteq> [] \<and> v \<noteq> [] \<and> last u = a \<and> hd v = b)"
proof (induction u)
  case Nil
  then show ?case by simp
next
  case (Cons c u)
  show ?case
  proof (cases u)
    case Nil
    then show ?thesis by (cases v) auto
  next
    case (Cons d u')
    with Cons.IH show ?thesis by auto
  qed
qed

lemma Contains_suffix: "suffix t s \<Longrightarrow> HasPrefix t p \<Longrightarrow> Contains s p"
proof (induction s)
  case Nil
  then show ?case by (cases p) auto
next
  case (Cons c s)
  then show ?case by (auto simp add: suffix_Cons)
qed

text \<open>
  When the continuation fails on every suffix of the text, so does the matcher
  built from it; a literal that does not occur in the text fails on every suffix.
\<close>

lemma reSpaces_fails: "(\<And>t. suffix t s \<Longrightarrow> k t = None) \<Longrightarrow> reSpaces k s = None"
proof (induction s)
  case Nil
  then show ?case by simp
next
  case (Cons c s)
  have "reSpaces k s = None"
    by (rule Cons.IH) (simp add: Cons.prems suffix_Cons)
  moreover have "k (c # s) = None"
    by (simp add: Cons.prems)
  ultimately show ?case by simp
qed

lemma reGroup_fails: "(\<And>g t. suffix t s \<Longrightarrow> k g t = None) \<Longrightarrow> reGroup k g s = None"
proof (induction s arbitrary: g)
  case Nil
  then show ?case by simp
next
  case (Cons c s)
  have "reGroup k (g @ [c]) s = None"
    by (rule Cons.IH) (simp add: Cons.prems suffix_Cons)
  moreover have "k (g @ [c]) s = None"
    by (simp add: Cons.prems suffix_Cons)
  ultimately show ?case by simp
qed

lemma reLit_fails: "(\<And>t. suffix t s \<Longrightarrow> k t = None) \<Longrightarrow> reLit p k s = None"
  by (simp add: reLit_def suffix_drop)

lemma reLit_absent: "\<not> Contains s p \<Longrightarrow> suffix t s \<Longrightarrow> reLit p k t = None"
  using Contains_suffix [of t s p] by (auto simp add: reLit_def)

lemma regexCmdAndOr_no_or: 
  assumes "\<not> Contains s ''||''" shows "regexCmdAndOr s = None"
  unfolding regexCmdAndOr_def
  apply (rule reSpaces_fails, rule reGroup_fails, rule reSpaces_fails, rule reLit_fails)
  apply (rule reSpaces_fails, rule reGroup_fails, rule reSpaces_fails)
  apply (rule reLit_absent [OF assms])
  apply (meson suffix_order.trans)
  done

lemma regexCmdAndOr_no_and: 
  assumes "\<not> Contains s ''&&''" shows "regexCmdAndOr s = None"
  unfolding regexCmdAndOr_def
  apply (rule reSpaces_fails, rule reGroup_fails, rule reSpaces_fails)
  apply (rule reLit_absent [OF assms])
  apply (meson suffix_order.trans)
  done

lemma regexCmdAnd_no_and: 
  assumes "\<not> Contains s ''&&''" shows "regexCmdAnd s = None"
  unfolding regexCmdAnd_def
  apply (rule reSpaces_fails, rule reGroup_fails, rule reSpaces_fails)
  apply (rule reLit_absent [OF assms])
  apply (meson suffix_order.trans)
  done

lemma regexCmdOr_no_or: 
  assumes "\<not> Contains s ''||''" shows "regexCmdOr s = None"
  unfolding regexCmdOr_def
  apply (rule reSpaces_fails, rule reGroup_fails, rule reSpaces_fails)
  apply (rule reLit_absent [OF assms])
  apply (meson suffix_order.trans)
  done

text \<open>
  The lazy group takes the shortest text after which the rest of the expression
  matches: if the continuation fails after every shorter non-empty prefix and
  succeeds after \<open>A\<close>, the group is \<open>A\<close>.
\<close>

lemma reSpaces_no_space: "s = [] \<or> \<not> reSpace (hd s) \<Longrightarrow> reSpaces k s = k s"
  by (cases s) auto

lemma reGroup_first:
  assumes "CHR 0x0A \<notin> set A" and "A \<noteq> []" and "k (g @ A) rest = Some r"
    and "\<And>P Q. A = P @ Q \<Longrightarrow> P \<noteq> [] \<Longrightarrow> Q \<noteq> [] \<Longrightarrow> k (g @ P) (Q @ rest) = None"
  shows "reGroup k g (A @ rest) = Some r"
  using assms
proof (induction A arbitrary: g)
  case Nil
  then show ?case by simp
next
  case (Cons a A)
  show ?case
  proof (cases "A = []")
    case True
    with Cons.prems show ?thesis by auto
  next
    case False
    have n: "k (g @ [a]) (A @ rest) = None"
      using Cons.prems(4) [of "[a]" A] False by simp
    have "reGroup k (g @ [a]) (A @ rest) = Some r"
    proof (rule Cons.IH)
      show "CHR 0x0A \<notin> set A" using Cons.prems(1) by simp
      show "A \<noteq> []" by (rule False)
      show "k ((g @ [a]) @ A) rest = Some r" using Cons.prems(3) by simp
      show "k ((g @ [a]) @ P) (Q @ rest) = None" if "A = P @ Q" "P \<noteq> []" "Q \<noteq> []" for P Q
        using Cons.prems(4) [of "a # P" Q] that by simp
    qed
    with n Cons.prems(1) show ?thesis by auto
  qed
qed

lemma spaces_lit_fails:
  assumes "Q \<noteq> []" and "\<not> reSpace (last Q)" and "\<not> Contains Q [x, x]" and "x \<noteq> CHR '' ''"
  shows "reSpaces (reLit [x, x] k) (Q @ CHR '' '' # R) = None"
  using assms
proof (induction Q)
  case Nil
  then show ?case by simp
next
  case (Cons q Q)
  show ?case
  proof (cases "Q = []")
    case True
    with Cons.prems show ?thesis by (simp add: reLit_def)
  next
    case False
    then obtain d Q' where Q: "Q = d # Q'" by (cases Q) auto
    have "reSpaces (reLit [x, x] k) (Q @ CHR '' '' # R) = None"
      using Cons.IH Cons.prems False by simp
    moreover have "reLit [x, x] k (q # Q @ CHR '' '' # R) = None"
      using Cons.prems(3) Q by (auto simp add: reLit_def)
    ultimately show ?thesis by simp
  qed
qed

lemma spaces_end_fails:
  assumes "Q \<noteq> []" and "\<not> reSpace (last Q)"
  shows "reSpaces (reEnd r) Q = None"
  using assms
proof (induction Q)
  case Nil
  then show ?case by simp
next
  case (Cons q Q)
  show ?case
  proof (cases "Q = []")
    case True
    with Cons.prems show ?thesis by (simp add: reEnd_def)
  next
    case False
    with Cons show ?thesis by (simp add: reEnd_def)
  qed
qed

lemma group_before_op:
  assumes "A \<noteq> []" and "\<not> reSpace (last A)" and "CHR 0x0A \<notin> set A"
    and "\<not> Contains A [x, x]" and "x \<noteq> CHR '' ''" and "\<not> reSpace x"
    and "k (g @ A) R = Some r"
  shows "reGroup (\<lambda>a. reSpaces (reLit [x, x] (k a))) g (A @ CHR '' '' # x # x # R) = Some r"
proof (rule reGroup_first)
  show "CHR 0x0A \<notin> set A" by fact
  show "A \<noteq> []" by fact
  show "reSpaces (reLit [x, x] (k (g @ A))) (CHR '' '' # x # x # R) = Some r"
    using assms(6,7) by (simp add: reSpace_def reLit_def)
  show "reSpaces (reLit [x, x] (k (g @ P))) (Q @ CHR '' '' # x # x # R) = None"
    if "A = P @ Q" "P \<noteq> []" "Q \<noteq> []" for P Q
  proof (rule spaces_lit_fails)
    show "Q \<noteq> []" by fact
    show "\<not> reSpace (last Q)" using assms(2) that by simp
    show "\<not> Contains Q [x, x]" using assms(4) that Contains_append_right by blast
    show "x \<noteq> CHR '' ''" by fact
  qed
qed

lemma group_before_end:
  assumes "C \<noteq> []" and "\<not> reSpace (last C)" and "CHR 0x0A \<notin> set C"
  shows "reGroup (\<lambda>c. reSpaces (reEnd (f c))) g C = Some (f (g @ C))"
proof -
  have "reGroup (\<lambda>c. reSpaces (reEnd (f c))) g (C @ []) = Some (f (g @ C))"
  proof (rule reGroup_first)
    show "CHR 0x0A \<notin> set C" by fact
    show "C \<noteq> []" by fact
    show "reSpaces (reEnd (f (g @ C))) [] = Some (f (g @ C))" by (simp add: reEnd_def)
    show "reSpaces (reEnd (f (g @ P))) (Q @ []) = None" if "C = P @ Q" "P \<noteq> []" "Q \<noteq> []" for P Q
      using spaces_end_fails [of Q] assms(2) that by simp
  qed
  then show ?thesis by simp
qed


lemma two_groups:
  assumes "A \<noteq> []" and "\<not> reSpace (hd A)" and "\<not> reSpace (last A)" and "CHR 0x0A \<notin> set A"
    and "\<not> Contains A [x, x]" and "x \<noteq> CHR '' ''" and "\<not> reSpace x"
    and "B \<noteq> []" and "\<not> reSpace (hd B)" and "\<not> reSpace (last B)" and "CHR 0x0A \<notin> set B"
  shows "reSpaces (reGroup (\<lambda>a. reSpaces (reLit [x, x] (reSpaces (reGroup
           (\<lambda>b. reSpaces (reEnd (a, b))) [])))) [])
           (A @ CHR '' '' # x # x # CHR '' '' # B) = Some (A, B)"
proof -
  have b: "reGroup (\<lambda>b. reSpaces (reEnd (A, b))) [] B = Some (A, B)"
    using group_before_end [of B "\<lambda>b. (A, b)" "[]"] assms by simp
  have sb: "reSpaces (reGroup (\<lambda>b. reSpaces (reEnd (A, b))) []) (CHR '' '' # B) = Some (A, B)"
    using b assms(8,9) by (simp add: reSpace_def reSpaces_no_space)
  have a: "reGroup (\<lambda>a. reSpaces (reLit [x, x] (reSpaces (reGroup
             (\<lambda>b. reSpaces (reEnd (a, b))) [])))) []
             (A @ CHR '' '' # x # x # CHR '' '' # B) = Some (A, B)"
    using group_before_op [of A x "\<lambda>a. reSpaces (reGroup (\<lambda>b. reSpaces (reEnd (a, b))) [])"
                              "[]" "CHR '' '' # B" "(A, B)"] assms sb
    by simp
  show ?thesis
    using a assms(1,2) by (simp add: reSpaces_no_space)
qed

lemma three_groups:
  assumes "A \<noteq> []" and "\<not> reSpace (hd A)" and "\<not> reSpace (last A)" and "CHR 0x0A \<notin> set A"
    and "\<not> Contains A ''&&''"
    and "B \<noteq> []" and "\<not> reSpace (hd B)" and "\<not> reSpace (last B)" and "CHR 0x0A \<notin> set B"
    and "\<not> Contains B ''||''"
    and "C \<noteq> []" and "\<not> reSpace (hd C)" and "\<not> reSpace (last C)" and "CHR 0x0A \<notin> set C"
  shows "regexCmdAndOr (A @ '' && '' @ B @ '' || '' @ C) = Some (A, B, C)"
proof -
  have c: "reGroup (\<lambda>c. reSpaces (reEnd (A, B, c))) [] C = Some (A, B, C)"
    using group_before_end [of C "\<lambda>c. (A, B, c)" "[]"] assms by simp
  have sc: "reSpaces (reGroup (\<lambda>c. reSpaces (reEnd (A, B, c))) []) (CHR '' '' # C) = Some (A, B, C)"
    using c assms(11,12) by (simp add: reSpace_def reSpaces_no_space)
  have b: "reGroup (\<lambda>b. reSpaces (reLit ''||'' (reSpaces (reGroup
             (\<lambda>c. reSpaces (reEnd (A, b, c))) [])))) []
             (B @ CHR '' '' # CHR ''|'' # CHR ''|'' # CHR '' '' # C) = Some (A, B, C)"
    using group_before_op [of B "CHR ''|''"
            "\<lambda>b. reSpaces (reGroup (\<lambda>c. reSpaces (reEnd (A, b, c))) [])"
            "[]" "CHR '' '' # C" "(A, B, C)"] assms sc
    by (simp add: reSpace_def)
  have sb: "reSpaces (reGroup (\<lambda>b. reSpaces (reLit ''||'' (reSpaces (reGroup
             (\<lambda>c. reSpaces (reEnd (A, b, c))) [])))) [])
             (CHR '' '' # B @ CHR '' '' # CHR ''|'' # CHR ''|'' # CHR '' '' # C) = Some (A, B, C)"
    using b assms(6,7) by (simp add: reSpace_def reSpaces_no_space)
  have a: "reGroup (\<lambda>a. reSpaces (reLit ''&&'' (reSpaces (reGroup
             (\<lambda>b. reSpaces (reLit ''||'' (reSpaces (reGroup
               (\<lambda>c. reSpaces (reEnd (a, b, c))) [])))) [])))) []
             (A @ CHR '' '' # CHR ''&'' # CHR ''&'' # CHR '' '' # B @ CHR '' '' # CHR ''|'' # CHR ''|'' # CHR '' '' # C)
           = Some (A, B, C)"
    using group_before_op [of A "CHR ''&''"
            "\<lambda>a. reSpaces (reGroup (\<lambda>b. reSpaces (reLit ''||'' (reSpaces (reGroup
               (\<lambda>c. reSpaces (reEnd (a, b, c))) [])))) [])"
            "[]" "CHR '' '' # B @ CHR '' '' # CHR ''|'' # CHR ''|'' # CHR '' '' # C" "(A, B, C)"]
          assms sb
    by (simp add: reSpace_def)
  show ?thesis
    using a assms(1,2) by (simp add: regexCmdAndOr_def reSpaces_no_space)
qed

lemma regexCmdAnd_chain:
  assumes "A \<noteq> []" and "\<not> reSpace (hd A)" and "\<not> reSpace (last A)" and "CHR 0x0A \<notin> set A"
    and "\<not> Contains A ''&&''"
    and "B \<noteq> []" and "\<not> reSpace (hd B)" and "\<not> reSpace (last B)" and "CHR 0x0A \<notin> set B"
  shows "regexCmdAnd (A @ '' && '' @ B) = Some (A, B)"
  using two_groups [of A "CHR ''&''" B] assms by (simp add: regexCmdAnd_def reSpace_def)

lemma regexCmdOr_chain:
  assumes "A \<noteq> []" and "\<not> reSpace (hd A)" and "\<not> reSpace (last A)" and "CHR 0x0A \<notin> set A"
    and "\<not> Contains A ''||''"
    and "B \<noteq> []" and "\<not> reSpace (hd B)" and "\<not> reSpace (last B)" and "CHR 0x0A \<notin> set B"
  shows "regexCmdOr (A @ '' || '' @ B) = Some (A, B)"
  using two_groups [of A "CHR ''|''" B] assms by (simp add: regexCmdOr_def reSpace_def)

text \<open>
  What a match hands on: the greedy \<open>\s*\<close> continues on a suffix of the text,
  and the lazy group continues after a non-empty prefix, which is the group.
\<close>

lemma reSpaces_Some: "reSpaces k s = Some r \<Longrightarrow> \<exists>t. suffix t s \<and> k t = Some r"
proof (induction s)
  case Nil
  then show ?case by auto
next
  case (Cons c s)
  show ?case
  proof (cases "reSpace c \<and> reSpaces k s = Some r")
    case True
    then obtain t where "suffix t s" "k t = Some r"
      using Cons.IH by blast
    then show ?thesis by (auto simp add: suffix_Cons)
  next
    case False
    with Cons.prems have "k (c # s) = Some r"
      by (auto split: if_splits option.splits)
    then show ?thesis by blast
  qed
qed

lemma reGroup_Some:
  "reGroup k g s = Some r \<Longrightarrow> \<exists>p q. p \<noteq> [] \<and> s = p @ q \<and> k (g @ p) q = Some r"
proof (induction s arbitrary: g)
  case Nil
  then show ?case by simp
next
  case (Cons c s)
  show ?case
  proof (cases "k (g @ [c]) s = Some r")
    case True
    then have "[c] \<noteq> [] \<and> c # s = [c] @ s \<and> k (g @ [c]) s = Some r" by simp
    then show ?thesis by blast
  next
    case False
    with Cons.prems have "reGroup k (g @ [c]) s = Some r"
      by (auto split: if_splits option.splits)
    from Cons.IH [OF this]
    obtain p q where "p \<noteq> []" "s = p @ q" "k ((g @ [c]) @ p) q = Some r"
      by blast
    then have "c # p \<noteq> [] \<and> c # s = (c # p) @ q \<and> k (g @ c # p) q = Some r" by simp
    then show ?thesis by blast
  qed
qed

lemma reLit_Some: "reLit p k s = Some r \<Longrightarrow> \<exists>t. k t = Some r"
  by (auto simp add: reLit_def split: if_splits)

lemma reEnd_Some: "reEnd r0 s = Some r \<Longrightarrow> r = r0"
  by (auto simp add: reEnd_def split: if_splits)

lemma last_group:
  assumes "reSpaces (reGroup (\<lambda>b. reSpaces (reEnd (f b))) []) s = Some r"
  shows "\<exists>b. r = f b"
proof -
  from reSpaces_Some [OF assms]
  obtain t where t: "reGroup (\<lambda>b. reSpaces (reEnd (f b))) [] t = Some r"
    by blast
  from reGroup_Some [OF t]
  obtain p q where p: "reSpaces (reEnd (f ([] @ p))) q = Some r"
    by blast
  from reSpaces_Some [OF p]
  obtain t' where "reEnd (f ([] @ p)) t' = Some r"
    by blast
  from reEnd_Some [OF this] show ?thesis
    by blast
qed

lemma spaces_then_lit:
  assumes "reSpaces (reLit p k) s = Some r"
  shows "\<exists>t. k t = Some r"
proof -
  from reSpaces_Some [OF assms]
  obtain t where "reLit p k t = Some r"
    by blast
  from reLit_Some [OF this] show ?thesis .
qed

lemma first_group:
  assumes "reSpaces (reGroup k []) s = Some r" and "s \<noteq> []" and "\<not> reSpace (hd s)"
  shows "\<exists>a q. a \<noteq> [] \<and> hd a = hd s \<and> k a q = Some r"
proof -
  have "reGroup k [] s = Some r"
    using assms by (simp add: reSpaces_no_space)
  from reGroup_Some [OF this]
  obtain a q where "a \<noteq> []" "s = a @ q" "k ([] @ a) q = Some r"
    by blast
  then have "a \<noteq> [] \<and> hd a = hd s \<and> k a q = Some r" by simp
  then show ?thesis by blast
qed

lemma regexCmdAnd_first:
  assumes "regexCmdAnd s = Some (a, b)" and "s \<noteq> []" and "\<not> reSpace (hd s)"
  shows "a \<noteq> [] \<and> hd a = hd s"
proof -
  from first_group [OF assms(1) [unfolded regexCmdAnd_def] assms(2,3)]
  obtain a' q where a: "a' \<noteq> []" "hd a' = hd s"
      and k: "reSpaces (reLit ''&&'' (reSpaces (reGroup
                (\<lambda>b. reSpaces (reEnd (a', b))) []))) q = Some (a, b)"
    by blast
  from spaces_then_lit [OF k]
  obtain t where "reSpaces (reGroup (\<lambda>b. reSpaces (reEnd (a', b))) []) t = Some (a, b)"
    by blast
  from last_group [OF this] have "\<exists>b'. (a, b) = (a', b')" .
  with a show ?thesis by auto
qed

lemma regexCmdOr_first:
  assumes "regexCmdOr s = Some (a, b)" and "s \<noteq> []" and "\<not> reSpace (hd s)"
  shows "a \<noteq> [] \<and> hd a = hd s"
proof -
  from first_group [OF assms(1) [unfolded regexCmdOr_def] assms(2,3)]
  obtain a' q where a: "a' \<noteq> []" "hd a' = hd s"
      and k: "reSpaces (reLit ''||'' (reSpaces (reGroup
                (\<lambda>b. reSpaces (reEnd (a', b))) []))) q = Some (a, b)"
    by blast
  from spaces_then_lit [OF k]
  obtain t where "reSpaces (reGroup (\<lambda>b. reSpaces (reEnd (a', b))) []) t = Some (a, b)"
    by blast
  from last_group [OF this] have "\<exists>b'. (a, b) = (a', b')" .
  with a show ?thesis by auto
qed

lemma regexCmdAndOr_first:
  assumes "regexCmdAndOr s = Some (a, b, c)" and "s \<noteq> []" and "\<not> reSpace (hd s)"
  shows "a \<noteq> [] \<and> hd a = hd s"
proof -
  from first_group [OF assms(1) [unfolded regexCmdAndOr_def] assms(2,3)]
  obtain a' q where a: "a' \<noteq> []" "hd a' = hd s"
      and k: "reSpaces (reLit ''&&'' (reSpaces (reGroup
                (\<lambda>b. reSpaces (reLit ''||'' (reSpaces (reGroup
                  (\<lambda>c. reSpaces (reEnd (a', b, c))) [])))) []))) q = Some (a, b, c)"
    by blast
  from spaces_then_lit [OF k]
  obtain t where t: "reSpaces (reGroup
                (\<lambda>b. reSpaces (reLit ''||'' (reSpaces (reGroup
                  (\<lambda>c. reSpaces (reEnd (a', b, c))) [])))) []) t = Some (a, b, c)"
    by blast
  from reSpaces_Some [OF t]
  obtain t' where t': "reGroup
                (\<lambda>b. reSpaces (reLit ''||'' (reSpaces (reGroup
                  (\<lambda>c. reSpaces (reEnd (a', b, c))) [])))) [] t' = Some (a, b, c)"
    by blast
  from reGroup_Some [OF t']
  obtain b' q' where b': "reSpaces (reLit ''||'' (reSpaces (reGroup
                  (\<lambda>c. reSpaces (reEnd (a', [] @ b', c))) []))) q' = Some (a, b, c)"
    by blast
  from spaces_then_lit [OF b']
  obtain t'' where "reSpaces (reGroup
                  (\<lambda>c. reSpaces (reEnd (a', [] @ b', c))) []) t'' = Some (a, b, c)"
    by blast
  from last_group [OF this] have "\<exists>c'. (a, b, c) = (a', [] @ b', c')" .
  with a show ?thesis by auto
qed

text \<open>
  The normalization keeps a leading \<open>#\<close>: the comment mark \<open>" #"\<close> needs a space
  before it, no white space rune contains the byte, and a pair of spaces does
  not start with it.
\<close>

lemma HasPrefix_prefix: "HasPrefix s p \<longleftrightarrow> prefix p s"
  by (induction s p rule: HasPrefix.induct) auto

lemma splitFrom_first: "\<exists>r rest. splitFrom sep cur s = (cur @ r) # rest"
proof (induction s arbitrary: cur)
  case Nil
  then show ?case by simp
next
  case (Cons c s)
  show ?case
  proof (cases "sep \<noteq> [] \<and> HasPrefix (c # s) sep")
    case True
    then show ?thesis by auto
  next
    case False
    from Cons.IH [of "cur @ [c]"]
    obtain r rest where "splitFrom sep (cur @ [c]) s = ((cur @ [c]) @ r) # rest"
      by blast
    with False have "splitFrom sep cur (c # s) = (cur @ (c # r)) # rest"
      by auto
    then show ?thesis by blast
  qed
qed

lemma stripComment_hash: "\<exists>r. stripComment (CHR ''#'' # cs) = CHR ''#'' # r"
proof -
  from splitFrom_first [of "'' #''" "''#''" cs]
  obtain r rest where "splitFrom '' #'' ''#'' cs = (''#'' @ r) # rest"
    by blast
  then have "stripComment (CHR ''#'' # cs) = CHR ''#'' # r"
    by (simp add: stripComment_def Split_def)
  then show ?thesis by blast
qed

lemma find_SomeD: "find P xs = Some x \<Longrightarrow> P x \<and> x \<in> set xs"
  by (induction xs) (auto split: if_splits)

lemma trimRunes_keeps_last:
  assumes "\<forall>r \<in> set rs. c \<notin> set r"
  shows "\<exists>v. trimRunes rs (u @ [c]) = v @ [c]"
proof (induction u rule: length_induct)
  case (1 u)
  show ?case
  proof (cases "find (\<lambda>r. r \<noteq> [] \<and> HasPrefix (u @ [c]) r) rs")
    case None
    then have "trimRunes rs (u @ [c]) = u @ [c]"
      by (cases u) auto
    then show ?thesis by blast
  next
    case (Some r)
    from find_SomeD [OF this]
    have r: "r \<in> set rs" "r \<noteq> []" "prefix r (u @ [c])"
      by (simp_all add: HasPrefix_prefix)
    have "c \<notin> set r"
      using assms r(1) by blast
    with r(3) have p: "prefix r u"
      by (auto simp add: prefix_snoc)
    with r(2) obtain d u' where u: "u = d # u'"
      by (cases u) auto
    have le: "length r - 1 \<le> length u'"
      using prefix_length_le [OF p] u by simp
    have "trimRunes rs (u @ [c]) = trimRunes rs (drop (length r - 1) u' @ [c])"
      using Some u le by simp
    moreover have "length (drop (length r - 1) u') < length u"
      using u by simp
    ultimately show ?thesis
      using "1.IH" by auto
  qed
qed

lemma TrimSpace_hash: "\<exists>r. TrimSpace (CHR ''#'' # cs) = CHR ''#'' # r"
proof -
  have l: "trimRunes spaceRunes (CHR ''#'' # cs) = CHR ''#'' # cs"
    by (simp add: spaceRunes_def)
  have "\<forall>r \<in> set (map rev spaceRunes). CHR ''#'' \<notin> set r"
    by (simp add: spaceRunes_def)
  from trimRunes_keeps_last [OF this, of "rev cs"]
  obtain v where "trimRunes (map rev spaceRunes) (rev cs @ ''#'') = v @ ''#''"
    by blast
  then have "TrimSpace (CHR ''#'' # cs) = CHR ''#'' # rev v"
    by (simp only: TrimSpace_def l) simp
  then show ?thesis by blast
qed

lemma squeeze_hash: "squeeze (CHR ''#'' # cs) = CHR ''#'' # squeeze cs"
  by (simp add: squeeze_def)

lemma normalize_hash:
  assumes "line \<noteq> []" and "hd line = CHR ''#''"
  shows "normalize line \<noteq> [] \<and> hd (normalize line) = CHR ''#''"
proof -
  obtain cs where "line = CHR ''#'' # cs"
    using assms by (cases line) auto
  moreover obtain r1 where "stripComment (CHR ''#'' # cs) = CHR ''#'' # r1"
    using stripComment_hash by blast
  moreover obtain r2 where "TrimSpace (CHR ''#'' # r1) = CHR ''#'' # r2"
    using TrimSpace_hash by blast
  ultimately show ?thesis
    by (simp add: normalize_def squeeze_hash)
qed

text \<open>
  A text that begins with \<open>#\<close> never yields a job: whichever expression matches,
  its first group begins with \<open>#\<close>.
\<close>

lemma parseSingleJob_hash: "a \<noteq> [] \<Longrightarrow> hd a = CHR ''#'' \<Longrightarrow> parseSingleJob e a = Inr None"
  by (simp add: parseSingleJob_def)

lemma ParseJob_hash_no_job:
  assumes "normalize line \<noteq> []" and "hd (normalize line) = CHR ''#''"
  shows "ParseJob e line \<noteq> Inr (Some j)"
proof -
  let ?n = "normalize line"
  have s: "\<not> reSpace (hd ?n)"
    using assms(2) by (simp add: reSpace_def)
  have 1: "parseSingleJob e a = Inr None" if "regexCmdAndOr ?n = Some (a, b, c)" for a b c
    using regexCmdAndOr_first [OF that assms(1) s] assms(2) by (simp add: parseSingleJob_hash)
  have 2: "parseSingleJob e a = Inr None" if "regexCmdAnd ?n = Some (a, b)" for a b
    using regexCmdAnd_first [OF that assms(1) s] assms(2) by (simp add: parseSingleJob_hash)
  have 3: "parseSingleJob e a = Inr None" if "regexCmdOr ?n = Some (a, b)" for a b
    using regexCmdOr_first [OF that assms(1) s] assms(2) by (simp add: parseSingleJob_hash)
  have 4: "parseSingleJob e ?n = Inr None"
    using assms by (simp add: parseSingleJob_hash)
  show ?thesis
    using 1 2 3 4
    by (auto simp add: ParseJob_def Let_def link_def split: option.splits sum.splits prod.splits)
qed

text \<open>
  A line that is empty after normalization, and a line that begins with \<open>#\<close> and
  contains no chaining operator, yield \<open>(nil, nil)\<close>.
\<close>

lemma ParseJob_blank: "normalize line = [] \<Longrightarrow> ParseJob e line = Inr None"
  by (simp add: ParseJob_def regexCmdAndOr_def regexCmdAnd_def regexCmdOr_def
        parseSingleJob_def link_def)

lemma ParseJob_plain_comment:
  assumes "normalize line \<noteq> []" and "hd (normalize line) = CHR ''#''"
    and "\<not> Contains (normalize line) ''&&''" and "\<not> Contains (normalize line) ''||''"
  shows "ParseJob e line = Inr None"
  using assms
  by (simp add: ParseJob_def regexCmdAndOr_no_and regexCmdAnd_no_and regexCmdOr_no_or
        parseSingleJob_def link_def)

text \<open>
  C9 as stated fails: the line \<open>#a && b && c\<close> begins with \<open>#\<close>, but
  \<open>regexCmdAnd\<close> splits it first; the second segment \<open>b && c\<close> is parsed and
  \<open>ParseJob\<close> returns the nested-commands error.
\<close>

theorem comment_line_with_chain:
  "hd ''#a && b && c'' = CHR ''#''
   \<and> ParseJob sampleEnv ''#a && b && c'' = Inl NestedCommands"
  by (simp add: ParseJob_def normalize_def stripComment_def Split_def TrimSpace_def
        spaceRunes_def squeeze_def regexCmdAndOr_def regexCmdAnd_def reLit_def reEnd_def
        reSpace_def parseSingleJob_def)

text \<open>
  C9, amended.  A line that is empty after comment stripping and white space
  normalization yields a nil job and a nil error.  A line whose first character
  is \<open>#\<close> never yields a job; it yields a nil job and a nil error when its
  normalized text contains neither \<open>&&\<close> nor \<open>||\<close>.  (When it contains one, the
  text is split at the operator as any other line is, and an error of a later
  segment is returned.)
\<close>

theorem ParseJob_blank_or_comment:
  "(normalize line = [] \<longrightarrow> ParseJob e line = Inr None)
   \<and> (line \<noteq> [] \<and> hd line = CHR ''#'' \<longrightarrow>
        (\<forall>j. ParseJob e line \<noteq> Inr (Some j))
        \<and> (\<not> Contains (normalize line) ''&&'' \<and> \<not> Contains (normalize line) ''||'' \<longrightarrow>
             ParseJob e line = Inr None))"
  using ParseJob_blank [of line e] normalize_hash [of line]
        ParseJob_hash_no_job [of line e] ParseJob_plain_comment [of line e]
  by blast

theorem ParseJob_blank_or_comment_witness:
  "ParseJob sampleEnv ''   # only a comment'' = Inr None
   \<and> ParseJob sampleEnv ''#cp a b  # copy'' = Inr None
   \<and> (\<forall>j. ParseJob sampleEnv ''#a && ls'' \<noteq> Inr (Some j))"
proof -
  have n1: "normalize ''   # only a comment'' = []"
    by (simp add: normalize_def stripComment_def Split_def TrimSpace_def spaceRunes_def
          squeeze_def)
  have n2: "normalize ''#cp a b  # copy'' = ''#cp a b''"
    by (simp add: normalize_def stripComment_def Split_def TrimSpace_def spaceRunes_def
          squeeze_def)
  have h2: "''#cp a b  # copy'' \<noteq> [] \<and> hd ''#cp a b  # copy'' = CHR ''#''"
    by simp
  have c2: "\<not> Contains ''#cp a b'' ''&&'' \<and> \<not> Contains ''#cp a b'' ''||''"
    by simp
  have h3: "''#a && ls'' \<noteq> [] \<and> hd ''#a && ls'' = CHR ''#''"
    by simp
  show ?thesis
    using ParseJob_blank_or_comment [of "''   # only a comment''" sampleEnv]
          ParseJob_blank_or_comment [of "''#cp a b  # copy''" sampleEnv]
          ParseJob_blank_or_comment [of "''#a && ls''" sampleEnv]
          n1 n2 h2 c2 h3
    by simp
qed

text \<open>What the three expressions return on chained segments.\<close>

lemma setCommands_fields:
  "successCommand (setCommands j s f) = s" "failCommand (setCommands j s f) = f"
  "sourceDesc (setCommands j s f) = sourceDesc j" "command (setCommands j s f) = command j"
  "args (setCommands j s f) = args j" "jobOpts (setCommands j s f) = jobOpts j"
  by (cases j; simp)+

lemma parseSingleJob_nested:
  "x \<noteq> [] \<Longrightarrow> hd x \<noteq> CHR ''#'' \<Longrightarrow> Contains x ''&&'' \<or> Contains x ''||''
     \<Longrightarrow> parseSingleJob e x = Inl NestedCommands"
  by (auto simp add: parseSingleJob_def)

lemma chain3_text:
  assumes "segment A" and "segment B" and "segment C"
  shows "regexCmdAndOr (A @ '' && '' @ B @ '' || '' @ C) = Some (A, B, C)"
  using assms by (intro three_groups) (auto simp add: segment_def)

lemma chain_and_text:
  assumes "segment A" and "segment B"
  shows "regexCmdAndOr (A @ '' && '' @ B) = None"
    and "regexCmdAnd (A @ '' && '' @ B) = Some (A, B)"
proof -
  show "regexCmdAndOr (A @ '' && '' @ B) = None"
    using assms
    by (intro regexCmdAndOr_no_or)
       (auto simp add: segment_def Contains_append2 HasPrefix_single)
  show "regexCmdAnd (A @ '' && '' @ B) = Some (A, B)"
    using assms by (intro regexCmdAnd_chain) (auto simp add: segment_def)
qed

lemma chain_or_text:
  assumes "segment A" and "segment C"
  shows "regexCmdAndOr (A @ '' || '' @ C) = None"
    and "regexCmdAnd (A @ '' || '' @ C) = None"
    and "regexCmdOr (A @ '' || '' @ C) = Some (A, C)"
proof -
  have n: "\<not> Contains (A @ '' || '' @ C) ''&&''"
    using assms by (auto simp add: segment_def Contains_append2 HasPrefix_single)
  show "regexCmdAndOr (A @ '' || '' @ C) = None"
    using n by (rule regexCmdAndOr_no_and)
  show "regexCmdAnd (A @ '' || '' @ C) = None"
    using n by (rule regexCmdAnd_no_and)
  show "regexCmdOr (A @ '' || '' @ C) = Some (A, C)"
    using assms by (intro regexCmdOr_chain) (auto simp add: segment_def)
qed

lemma single_text:
  assumes "segment A"
  shows "regexCmdAndOr A = None" and "regexCmdAnd A = None" and "regexCmdOr A = None"
  using assms
  by (auto simp add: segment_def intro: regexCmdAndOr_no_and regexCmdAnd_no_and
        regexCmdOr_no_or)

lemma chain_and_and_text:
  assumes "segment A" and "segment B" and "segment C" and "hd B \<noteq> CHR ''#''"
  shows "regexCmdAndOr (A @ '' && '' @ B @ '' && '' @ C) = None"
    and "regexCmdAnd (A @ '' && '' @ B @ '' && '' @ C) = Some (A, B @ '' && '' @ C)"
    and "parseSingleJob e (B @ '' && '' @ C) = Inl NestedCommands"
proof -
  show "regexCmdAndOr (A @ '' && '' @ B @ '' && '' @ C) = None"
    using assms
    by (intro regexCmdAndOr_no_or)
       (auto simp add: segment_def Contains_append2 HasPrefix_single)
  show "regexCmdAnd (A @ '' && '' @ B @ '' && '' @ C) = Some (A, B @ '' && '' @ C)"
    using assms by (intro regexCmdAnd_chain) (auto simp add: segment_def reSpace_def)
  show "parseSingleJob e (B @ '' && '' @ C) = Inl NestedCommands"
    using assms by (intro parseSingleJob_nested) (auto simp add: segment_def Contains_append2)
qed

text \<open>
  C1 as stated fails: a segment that begins with \<open>#\<close> is returned as \<open>(nil, nil)\<close>
  by \<open>parseSingleJob\<close> before the test for nested operators.  The line
  \<open>ls &&#b && c\<close> is split into \<open>ls\<close> and \<open>#b && c\<close>; the second segment still
  contains \<open>&&\<close>, yet \<open>ParseJob\<close> returns the job for \<open>ls\<close> without a
  continuation and without an error.  With \<open>#a\<close> in place of \<open>ls\<close> the result is
  \<open>(nil, nil)\<close>, whatever the command table is.
\<close>

theorem hash_segment_counterexample:
  "regexCmdAnd (normalize ''ls &&#b && c'') = Some (''ls'', ''#b && c'')
   \<and> Contains ''#b && c'' ''&&''
   \<and> parseSingleJob sampleEnv ''#b && c'' = Inr None
   \<and> ParseJob sampleEnv ''ls &&#b && c''
       = Inr (Some (Job ''ls'' ''ls'' ''list'' [] [] 0 0 None None))
   \<and> ParseJob sampleEnv ''#a &&#b && c'' = Inr None"
  by (simp add: ParseJob_def normalize_def stripComment_def Split_def TrimSpace_def
        spaceRunes_def squeeze_def regexCmdAndOr_def regexCmdAnd_def reLit_def reEnd_def
        reSpace_def parseSingleJob_def link_def sampleEnv_def sampleCommands_def
        tryCommand_def acceptedMatches_def arityRejected_def suppliedParamCount_def
        minCount_def maxCount_def)

text \<open>
  C1, amended.  Let \<open>A\<close>, \<open>B\<close>, \<open>C\<close> be segments.  For every line whose
  normalized text is \<open>A && B || C\<close>, \<open>A && B\<close>, \<open>A || B\<close> or \<open>A\<close>, \<open>ParseJob\<close>
  parses the segments in order with \<open>parseSingleJob\<close>, returns the first error
  met, and otherwise returns the job parsed from \<open>A\<close> (nil when \<open>A\<close> begins with
  \<open>#\<close>) with \<open>successCommand\<close> and \<open>failCommand\<close> set to the results for \<open>B\<close>
  and \<open>C\<close> (\<open>A && B\<close> sets only \<open>successCommand\<close>, \<open>A || B\<close> only
  \<open>failCommand\<close>).  \<open>parseSingleJob\<close> rejects with the nested-commands error
  every text that is non-empty, does not begin with \<open>#\<close> and contains \<open>&&\<close> or
  \<open>||\<close>, and returns \<open>(nil, nil)\<close> for every text that begins with \<open>#\<close>.
  A line whose normalized text is \<open>A && B && C\<close> (\<open>B\<close> not beginning
  with \<open>#\<close>) fails with the error of \<open>A\<close> when \<open>A\<close> is rejected and with the
  nested-commands error otherwise; in particular \<open>cp a && cp b && cp c\<close> fails
  with the nested-commands error whenever the command table accepts \<open>cp a\<close>.
\<close>

theorem ParseJob_chaining:
  assumes "segment A" and "segment B" and "segment C"
  shows
    "(normalize line = A @ '' && '' @ B @ '' || '' @ C \<longrightarrow>
       ParseJob e line =
         (case parseSingleJob e A of Inl err \<Rightarrow> Inl err | Inr j \<Rightarrow>
           (case parseSingleJob e B of Inl err \<Rightarrow> Inl err | Inr s \<Rightarrow>
             (case parseSingleJob e C of Inl err \<Rightarrow> Inl err | Inr f \<Rightarrow>
                Inr (map_option (\<lambda>x. setCommands x s f) j)))))
     \<and> (normalize line = A @ '' && '' @ B \<longrightarrow>
       ParseJob e line =
         (case parseSingleJob e A of Inl err \<Rightarrow> Inl err | Inr j \<Rightarrow>
           (case parseSingleJob e B of Inl err \<Rightarrow> Inl err | Inr s \<Rightarrow>
              Inr (map_option (\<lambda>x. setCommands x s None) j))))
     \<and> (normalize line = A @ '' || '' @ C \<longrightarrow>
       ParseJob e line =
         (case parseSingleJob e A of Inl err \<Rightarrow> Inl err | Inr j \<Rightarrow>
           (case parseSingleJob e C of Inl err \<Rightarrow> Inl err | Inr f \<Rightarrow>
              Inr (map_option (\<lambda>x. setCommands x None f) j))))
     \<and> (normalize line = A \<longrightarrow>
       ParseJob e line =
         (case parseSingleJob e A of Inl err \<Rightarrow> Inl err | Inr j \<Rightarrow>
            Inr (map_option (\<lambda>x. setCommands x None None) j)))
     \<and> (\<forall>x. x \<noteq> [] \<and> hd x \<noteq> CHR ''#'' \<and> (Contains x ''&&'' \<or> Contains x ''||'')
            \<longrightarrow> parseSingleJob e x = Inl NestedCommands)
     \<and> (normalize line = A @ '' && '' @ B @ '' && '' @ C \<and> hd B \<noteq> CHR ''#'' \<longrightarrow>
       ParseJob e line =
         (case parseSingleJob e A of Inl err \<Rightarrow> Inl err | Inr j \<Rightarrow> Inl NestedCommands))
     \<and> ParseJob e ''cp a && cp b && cp c'' =
         (case parseSingleJob e ''cp a'' of Inl err \<Rightarrow> Inl err | Inr j \<Rightarrow> Inl NestedCommands)
     \<and> (\<forall>x. x \<noteq> [] \<and> hd x = CHR ''#'' \<longrightarrow> parseSingleJob e x = Inr None)"
proof -
  have 1: "ParseJob e line =
         (case parseSingleJob e A of Inl err \<Rightarrow> Inl err | Inr j \<Rightarrow>
           (case parseSingleJob e B of Inl err \<Rightarrow> Inl err | Inr s \<Rightarrow>
             (case parseSingleJob e C of Inl err \<Rightarrow> Inl err | Inr f \<Rightarrow>
                Inr (map_option (\<lambda>x. setCommands x s f) j))))"
    if n: "normalize line = A @ '' && '' @ B @ '' || '' @ C"
    using chain3_text [OF assms]
    by (simp add: ParseJob_def n link_def Let_def split: sum.splits)
  have 2: "ParseJob e line =
         (case parseSingleJob e A of Inl err \<Rightarrow> Inl err | Inr j \<Rightarrow>
           (case parseSingleJob e B of Inl err \<Rightarrow> Inl err | Inr s \<Rightarrow>
              Inr (map_option (\<lambda>x. setCommands x s None) j)))"
    if n: "normalize line = A @ '' && '' @ B"
    using chain_and_text [OF assms(1,2)]
    by (simp add: ParseJob_def n link_def Let_def split: sum.splits)
  have 3: "ParseJob e line =
         (case parseSingleJob e A of Inl err \<Rightarrow> Inl err | Inr j \<Rightarrow>
           (case parseSingleJob e C of Inl err \<Rightarrow> Inl err | Inr f \<Rightarrow>
              Inr (map_option (\<lambda>x. setCommands x None f) j)))"
    if n: "normalize line = A @ '' || '' @ C"
    using chain_or_text [OF assms(1,3)]
    by (simp add: ParseJob_def n link_def Let_def split: sum.splits)
  have 4: "ParseJob e line =
         (case parseSingleJob e A of Inl err \<Rightarrow> Inl err | Inr j \<Rightarrow>
            Inr (map_option (\<lambda>x. setCommands x None None) j))"
    if n: "normalize line = A"
    using single_text [OF assms(1)]
    by (simp add: ParseJob_def n link_def Let_def split: sum.splits)
  have 5: "\<forall>x. x \<noteq> [] \<and> hd x \<noteq> CHR ''#'' \<and> (Contains x ''&&'' \<or> Contains x ''||'')
            \<longrightarrow> parseSingleJob e x = Inl NestedCommands"
    using parseSingleJob_nested by blast
  have 6: "ParseJob e l =
       (case parseSingleJob e A' of Inl err \<Rightarrow> Inl err | Inr j \<Rightarrow> Inl NestedCommands)"
    if "segment A'" "segment B'" "segment C'" "hd B' \<noteq> CHR ''#''"
      and n: "normalize l = A' @ '' && '' @ B' @ '' && '' @ C'"
    for A' B' C' l
    using chain_and_and_text(1,2) [OF that(1-4)] chain_and_and_text(3) [OF that(1-4), of e]
    by (simp add: ParseJob_def n Let_def split: sum.splits)
  have cp: "segment ''cp a''" "segment ''cp b''" "segment ''cp c''" "hd ''cp b'' \<noteq> CHR ''#''"
    by (simp_all add: segment_def reSpace_def)
  have ncp: "normalize ''cp a && cp b && cp c'' = ''cp a'' @ '' && '' @ ''cp b'' @ '' && '' @ ''cp c''"
    by (simp add: normalize_def stripComment_def Split_def TrimSpace_def spaceRunes_def
          squeeze_def)
  have 7: "ParseJob e ''cp a && cp b && cp c'' =
       (case parseSingleJob e ''cp a'' of Inl err \<Rightarrow> Inl err | Inr j \<Rightarrow> Inl NestedCommands)"
    using 6 [OF cp ncp] by simp
  have 8: "\<forall>x. x \<noteq> [] \<and> hd x = CHR ''#'' \<longrightarrow> parseSingleJob e x = Inr None"
    by (simp add: parseSingleJob_def)
  show ?thesis
    using 1 2 3 4 5 6 [OF assms, of line] 7 8 by blast
qed

theorem ParseJob_chaining_witness:
  "ParseJob sampleEnv ''  cp a b  &&  ls ||   rm x  # then list''
     = Inr (Some (Job ''cp a b'' ''cp'' ''copy''
              [\<lparr>arg = ''a'', s3 = None\<rparr>, \<lparr>arg = ''b'', s3 = None\<rparr>] [] 0 0
              (Some (Job ''ls'' ''ls'' ''list'' [] [] 0 0 None None))
              (Some (Job ''rm x'' ''rm'' ''remove'' [\<lparr>arg = ''x'', s3 = None\<rparr>] [] 0 0
                 None None))))
   \<and> ParseJob sampleEnv ''cp a b && ls''
     = Inr (Some (Job ''cp a b'' ''cp'' ''copy''
              [\<lparr>arg = ''a'', s3 = None\<rparr>, \<lparr>arg = ''b'', s3 = None\<rparr>] [] 0 0
              (Some (Job ''ls'' ''ls'' ''list'' [] [] 0 0 None None)) None))
   \<and> ParseJob sampleEnv ''cp a b || rm x''
     = Inr (Some (Job ''cp a b'' ''cp'' ''copy''
              [\<lparr>arg = ''a'', s3 = None\<rparr>, \<lparr>arg = ''b'', s3 = None\<rparr>] [] 0 0
              None
              (Some (Job ''rm x'' ''rm'' ''remove'' [\<lparr>arg = ''x'', s3 = None\<rparr>] [] 0 0
                 None None))))
   \<and> parseSingleJob sampleEnv ''cp b && cp c'' = Inl NestedCommands
   \<and> ParseJob sampleEnv ''cp a b && ls && rm x'' = Inl NestedCommands
   \<and> ParseJob sampleEnv ''cp a && cp b && cp c'' = Inl (InvalidParameters ''cp'')
   \<and> parseSingleJob sampleEnv ''#b && c'' = Inr None"
proof -
  have sA: "segment ''cp a b''" and sB: "segment ''ls''" and sC: "segment ''rm x''"
    by (simp_all add: segment_def reSpace_def)
  have hB: "hd ''ls'' \<noteq> CHR ''#''"
    by simp
  have n1: "normalize ''  cp a b  &&  ls ||   rm x  # then list''
              = ''cp a b'' @ '' && '' @ ''ls'' @ '' || '' @ ''rm x''"
    by (simp add: normalize_def stripComment_def Split_def TrimSpace_def spaceRunes_def
          squeeze_def)
  have n2: "normalize ''cp a b && ls'' = ''cp a b'' @ '' && '' @ ''ls''"
    by (simp add: normalize_def stripComment_def Split_def TrimSpace_def spaceRunes_def
          squeeze_def)
  have n3: "normalize ''cp a b || rm x'' = ''cp a b'' @ '' || '' @ ''rm x''"
    by (simp add: normalize_def stripComment_def Split_def TrimSpace_def spaceRunes_def
          squeeze_def)
  have n4: "normalize ''cp a b && ls && rm x'' = ''cp a b'' @ '' && '' @ ''ls'' @ '' && '' @ ''rm x''"
    by (simp add: normalize_def stripComment_def Split_def TrimSpace_def spaceRunes_def
          squeeze_def)
  have pA: "parseSingleJob sampleEnv ''cp a b''
              = Inr (Some (Job ''cp a b'' ''cp'' ''copy''
                  [\<lparr>arg = ''a'', s3 = None\<rparr>, \<lparr>arg = ''b'', s3 = None\<rparr>] [] 0 0 None None))"
    by (simp add: parseSingleJob_def Split_def sampleEnv_def sampleCommands_def tryCommand_def
          acceptedMatches_def arityRejected_def suppliedParamCount_def minCount_def maxCount_def
          parseArgumentByType_def parseFileArg_def sampleParseS3Url_def hasGlob_def
          ContainsAny_def fnBaseOf_def Base_def Separator_def Let_def)
  have pB: "parseSingleJob sampleEnv ''ls''
              = Inr (Some (Job ''ls'' ''ls'' ''list'' [] [] 0 0 None None))"
    by (simp add: parseSingleJob_def Split_def sampleEnv_def sampleCommands_def tryCommand_def
          acceptedMatches_def arityRejected_def suppliedParamCount_def minCount_def maxCount_def)
  have pC: "parseSingleJob sampleEnv ''rm x''
              = Inr (Some (Job ''rm x'' ''rm'' ''remove'' [\<lparr>arg = ''x'', s3 = None\<rparr>] [] 0 0
                  None None))"
    by (simp add: parseSingleJob_def Split_def sampleEnv_def sampleCommands_def tryCommand_def
          acceptedMatches_def arityRejected_def suppliedParamCount_def minCount_def maxCount_def
          parseArgumentByType_def)
  have pD: "parseSingleJob sampleEnv ''cp a'' = Inl (InvalidParameters ''cp'')"
    by (simp add: parseSingleJob_def Split_def sampleEnv_def sampleCommands_def tryCommand_def
          acceptedMatches_def arityRejected_def suppliedParamCount_def minCount_def maxCount_def)
  have nest: "''cp b && cp c'' \<noteq> [] \<and> hd ''cp b && cp c'' \<noteq> CHR ''#''
             \<and> (Contains ''cp b && cp c'' ''&&'' \<or> Contains ''cp b && cp c'' ''||'')"
    by simp
  note T = ParseJob_chaining [OF sA sB sC, where e = sampleEnv]
  have r1: "ParseJob sampleEnv ''  cp a b  &&  ls ||   rm x  # then list''
     = Inr (Some (Job ''cp a b'' ''cp'' ''copy''
              [\<lparr>arg = ''a'', s3 = None\<rparr>, \<lparr>arg = ''b'', s3 = None\<rparr>] [] 0 0
              (Some (Job ''ls'' ''ls'' ''list'' [] [] 0 0 None None))
              (Some (Job ''rm x'' ''rm'' ''remove'' [\<lparr>arg = ''x'', s3 = None\<rparr>] [] 0 0
                 None None))))"
    using mp [OF T [THEN conjunct1] n1] by (simp add: pA pB pC)
  have r2: "ParseJob sampleEnv ''cp a b && ls''
     = Inr (Some (Job ''cp a b'' ''cp'' ''copy''
              [\<lparr>arg = ''a'', s3 = None\<rparr>, \<lparr>arg = ''b'', s3 = None\<rparr>] [] 0 0
              (Some (Job ''ls'' ''ls'' ''list'' [] [] 0 0 None None)) None))"
    using mp [OF T [THEN conjunct2, THEN conjunct1] n2] by (simp add: pA pB)
  have r3: "ParseJob sampleEnv ''cp a b || rm x''
     = Inr (Some (Job ''cp a b'' ''cp'' ''copy''
              [\<lparr>arg = ''a'', s3 = None\<rparr>, \<lparr>arg = ''b'', s3 = None\<rparr>] [] 0 0
              None
              (Some (Job ''rm x'' ''rm'' ''remove'' [\<lparr>arg = ''x'', s3 = None\<rparr>] [] 0 0
                 None None))))"
    using mp [OF T [THEN conjunct2, THEN conjunct2, THEN conjunct1] n3] by (simp add: pA pC)
  have r4: "parseSingleJob sampleEnv ''cp b && cp c'' = Inl NestedCommands"
    using T [where line = "[]", THEN conjunct2, THEN conjunct2, THEN conjunct2, THEN conjunct2,
             THEN conjunct1] nest
    by blast
  have r5: "ParseJob sampleEnv ''cp a b && ls && rm x'' = Inl NestedCommands"
    using mp [OF T [THEN conjunct2, THEN conjunct2, THEN conjunct2, THEN conjunct2,
                    THEN conjunct2, THEN conjunct1] conjI [OF n4 hB]]
    by (simp add: pA)
  have r6: "ParseJob sampleEnv ''cp a && cp b && cp c'' = Inl (InvalidParameters ''cp'')"
    using T [where line = "[]", THEN conjunct2, THEN conjunct2, THEN conjunct2, THEN conjunct2,
             THEN conjunct2, THEN conjunct2, THEN conjunct1]
    by (simp add: pD)
  have hash: "''#b && c'' \<noteq> [] \<and> hd ''#b && c'' = CHR ''#''"
    by simp
  have r7: "parseSingleJob sampleEnv ''#b && c'' = Inr None"
    using T [where line = "[]", THEN conjunct2, THEN conjunct2, THEN conjunct2, THEN conjunct2,
             THEN conjunct2, THEN conjunct2, THEN conjunct2] hash
    by blast
  show ?thesis
    using r1 r2 r3 r4 r5 r6 r7 by blast
qed

section \<open>Facts about the select driver\<close>

lemma enumerate_tasks:
  "snd (enumerate_objects d c objch) = map (\<lambda>object. runTask d c (URL object)) (submitted d objch)"
  by (induction objch) (auto simp add: submitted_def Let_def split: prod.splits option.splits)

lemma enumerate_printed:
  "fst (enumerate_objects d c objch) =
     concat (map (\<lambda>object.
        if IsDir object \<or> IsCancelation d (Err object) then []
        else case Err object of Some err \<Rightarrow> [err]
             | None \<Rightarrow> if IsGlacier object then [OnGlacier (URL object)] else []) objch)"
  by (induction objch) (auto simp add: Let_def split: prod.splits option.splits)

lemma foldl_collect_printed:
  "printed (foldl collect st es) = printed st @ es"
  by (induction es arbitrary: st) (simp_all add: collect_def)

lemma foldl_collect_merror_Some:
  "merror st = Some xs \<Longrightarrow>
   merror (foldl collect st es)
     = Some (xs @ concat (map (\<lambda>err. case err of Multierror es' \<Rightarrow> es' | _ \<Rightarrow> [err]) es))"
proof (induction es arbitrary: st xs)
  case Nil
  then show ?case by simp
next
  case (Cons err es)
  show ?case
  proof (cases err)
    case (Multierror es')
    have "merror (collect st err) = Some (xs @ es')"
      using Cons.prems Multierror by (simp add: collect_def multierrorAppend_def)
    from Cons.IH [OF this] show ?thesis
      using Multierror by simp
  next
    case (Opaque x)
    have "merror (collect st err) = Some (xs @ [err])"
      using Cons.prems Opaque by (simp add: collect_def multierrorAppend_def)
    from Cons.IH [OF this] show ?thesis
      using Opaque by simp
  next
    case (OnGlacier u)
    have "merror (collect st err) = Some (xs @ [err])"
      using Cons.prems OnGlacier by (simp add: collect_def multierrorAppend_def)
    from Cons.IH [OF this] show ?thesis
      using OnGlacier by simp
  qed
qed

lemma foldl_collect_merror_None:
  "merror st = None \<Longrightarrow>
   merror (foldl collect st es)
     = (if es = [] then None
        else Some (concat (map (\<lambda>err. case err of Multierror es' \<Rightarrow> es' | _ \<Rightarrow> [err]) es)))"
proof (cases es)
  case Nil
  assume "merror st = None"
  then show ?thesis using Nil by simp
next
  case (Cons err es')
  assume n: "merror st = None"
  have "merror (collect st err)
          = Some ([] @ (case err of Multierror es'' \<Rightarrow> es'' | _ \<Rightarrow> [err]))"
    using n by (cases err) (simp_all add: collect_def multierrorAppend_def)
  from foldl_collect_merror_Some [OF this, of es'] show ?thesis
    using Cons by simp
qed

text \<open>
  What \<open>Run\<close> does once the three set-up calls have succeeded: it prints the
  errors of the loop and then what arrives from the waiter, and it returns nil
  when nothing arrives and otherwise the \<open>*multierror.Error\<close> built from what
  arrives.  The objects that are not submitted have no part in the returned
  value.
\<close>

lemma Run_after_setup:
  assumes "NewURL d src = Inr u" and "NewRemoteClient d u = Inr c"
    and "expandSource d c u = Inr objch"
  shows "Run d src =
     (let es = waiterErr d (map (\<lambda>object. runTask d c (URL object)) (submitted d objch))
      in (fst (enumerate_objects d c objch) @ es,
          if es = [] then None
          else Some (Multierror
                 (concat (map (\<lambda>err. case err of Multierror es' \<Rightarrow> es' | _ \<Rightarrow> [err]) es)))))"
  using assms enumerate_tasks [of d c objch]
  by (auto simp add: Run_def Let_def foldl_collect_printed foldl_collect_merror_None
        split: prod.splits)

text \<open>
  C2 at its failing input.  The claim gives every failing object one entry of
  the returned aggregate, each object on cold storage included.  \<open>Run\<close> passes
  the error of an object that failed during enumeration, and the error it
  builds for an object on Glacier storage, to \<open>printError\<close>, as the collecting
  goroutine does for the error of a task; but only the goroutine appends to
  \<open>merror\<close>.  For a source that expands to one Glacier object and one object
  with an enumeration error, \<open>Run\<close> prints both errors and returns nil.  For
  the six sample descriptors it prints three errors and returns an aggregate
  with one entry, that of the failing task.
\<close>

theorem Run_omits_enumeration_errors:
  "Run (sampleDriver
          [\<lparr>URL = ''s3://b/cold'', IsDir = False, Err = None, IsGlacier = True\<rparr>,
           \<lparr>URL = ''s3://b/gone'', IsDir = False, Err = Some (Opaque ''access denied''),
              IsGlacier = False\<rparr>])
        ''s3://b/*''
     = ([OnGlacier ''s3://b/cold'', Opaque ''access denied''], None)
   \<and> Run (sampleDriver sampleObjects) ''s3://b/*''
     = ([OnGlacier ''s3://b/cold'', Opaque ''access denied'', Opaque ''denied''],
        Some (Multierror [Opaque ''denied'']))"
  by (simp add: Run_def sampleDriver_def sampleObjects_def Let_def List.map_filter_def
        collect_def multierrorAppend_def)

end
